theory Spec2Isabelle
  imports Main
begin

section \<open>Data model\<close>

text \<open>
  The kernel optimizer of \<^verbatim>\<open>tinygrad/codegen/kernel.py\<close>: class \<^verbatim>\<open>Kernel\<close> with its
  base simplifiers and \<^verbatim>\<open>apply_opt\<close>. A method that mutates \<^verbatim>\<open>self\<close> and may raise is
  a function from the kernel state to an outcome and the state it leaves behind, so that
  what a failed call did to the state stays visible.
\<close>

subsection \<open>Opts\<close>

text \<open>
  Modelled from the spec: \<^verbatim>\<open>OptOps\<close> and \<^verbatim>\<open>Opt\<close> are imported from
  \<^verbatim>\<open>tinygrad.renderer\<close>, which is not among the source files. An opt is a triple
  (op, axis, arg); the axis is an optional Python int, the arg is absent, an int or a
  tuple of ints.
\<close>

datatype OptOps = TC | UPCAST | UNROLL | LOCAL | GROUP | GROUPTOP | NOLOCALS | PADTO | SWAP

datatype OptArg = ArgNone | ArgInt int | ArgTuple "int list"

datatype Opt = Opt (op: OptOps) (axis: "int option") (arg: OptArg)

subsection \<open>Operation graph\<close>

text \<open>
  Modelled from the spec: the \<^verbatim>\<open>UOp\<close> node of \<^verbatim>\<open>tinygrad.ops\<close> (opcode, dtype, ordered
  sources, opcode-specific argument). Only the opcodes the optimizer inspects are listed;
  a \<^verbatim>\<open>REDUCE_AXIS\<close> node carries the pair (reduction kind, axes).
\<close>

datatype Ops = SINK | LOAD | STORE | CONST | VALID | VIEW | REDUCE_AXIS | MUL | CAST | ADD | MAX
  | DEFINE_GLOBAL | DEFINE_LOCAL | DEFINE_VAR | WMMA | CONTRACT | NAME

datatype DType = DType (dtype_name: string) (itemsize: int)

datatype UArg = NoArg | ReduceArg Ops "int list" | OtherArg string

datatype UOp = UOp (uop_op: Ops) (uop_dtype: DType) (uop_src: "UOp list") (uop_arg: UArg)

text \<open>A shape entry (\<^verbatim>\<open>sint\<close>) is a Python int or a symbolic \<^verbatim>\<open>UOp\<close>.\<close>

datatype sint = I int | Sym UOp

subsection \<open>Errors\<close>

text \<open>
  \<^verbatim>\<open>check(cond, msg)\<close> raises \<^verbatim>\<open>KernelOptError(msg)\<close>. Each message of the source is
  one constructor; the message about shared memory keeps the two numbers it prints.
\<close>

datatype msg =
    NotUsingLocals             \<comment> \<open>"not using locals"\<close>
  | TCMustBeFirst              \<comment> \<open>"tensor core opts must be first"\<close>
  | MustHaveTC                 \<comment> \<open>"must have tensor cores or TC=2"\<close>
  | TCNeedsAxis                \<comment> \<open>"tensor core opts must have an axis"\<close>
  | TCNeedsArgs                \<comment> \<open>"tensor core opts must have tc_select and tc_opt"\<close>
  | TCBadSelect                \<comment> \<open>"tensor core opts must have valid tc_select"\<close>
  | TCBadOpt                   \<comment> \<open>"tensor core opts must have valid tc_opt"\<close>
  | NoTensorCore               \<comment> \<open>"no tensor core available"\<close>
  | InvalidAxis                \<comment> \<open>"invalid axis"\<close>
  | ArgNotInt                  \<comment> \<open>"arg should be int"\<close>
  | MeaninglessAmt             \<comment> \<open>"shift/padto of amt, 1 or symbolic amount is meaningless"\<close>
  | InvalidShift               \<comment> \<open>"no longer valid shift"\<close>
  | ExceedsSharedMem sint int  \<comment> \<open>"exceeds maximum shared memory size: needs .., max .."\<close>
  | NoLocalSupport             \<comment> \<open>"target does not support local"\<close>
  | LocalIsForGlobals          \<comment> \<open>"local is for globals"\<close>
  | NoLocalOrShared            \<comment> \<open>"target does not support local or shared mem"\<close>
  | MustBeReduceAxis           \<comment> \<open>"must be reduce axis to group"\<close>
  | GroupWithTC                \<comment> \<open>"can't group with tensor cores"\<close>
  | GroupParallelReduces       \<comment> \<open>"can't group with parallel reduces"\<close>
  | AlreadyUpcasted            \<comment> \<open>"can't upcasted already upcasted"\<close>
  | UnrollTooMuch              \<comment> \<open>"don't unroll more than 32"\<close>
  | UpcastIsForNonReduce       \<comment> \<open>"upcast is for non-reduce"\<close>
  | UpcastTCLocals             \<comment> \<open>"can't upcast TC locals"\<close>
  | UpcastTooMuch              \<comment> \<open>"don't upcast more than 16"\<close>
  | NoLocalsMeaningless        \<comment> \<open>"NOLOCALS is meaningless if target does not support local ..."\<close>
  | NoLocalsWithLocals         \<comment> \<open>"can't have no locals with locals"\<close>
  | SwapGlobalsOnly            \<comment> \<open>"swap is only for globals with axis < amt"\<close>
  | SymbolicShape              \<comment> \<open>"does not work with symbolic shape"\<close>
  | PadUpcasted                \<comment> \<open>"cannot pad upcasted"\<close>
  | CannotPad                  \<comment> \<open>"cannot pad r"\<close>
  | PadQuadruple               \<comment> \<open>"pad adds more than quadruple the work"\<close>
  | NothingPadded              \<comment> \<open>"nothing was padded"\<close>
  | UpcastSizeOne              \<comment> \<open>"can't upcast a dimension with size 1"\<close>

datatype error = KernelOptError msg | IndexError | ValueError | TypeError | ZeroDivisionError
  | AssertionError | KeyError

subsection \<open>Renderer and tensor cores\<close>

text \<open>
  Modelled from the spec: the renderer descriptor and its tensor-core descriptors
  (\<^verbatim>\<open>tinygrad.renderer\<close>, not among the source files). Of a tensor core the optimizer reads
  \<^verbatim>\<open>dims\<close>, the two dtypes, the opt program \<^verbatim>\<open>opts\<close> (pairs of a kind and the index 0 or
  1 of the N or M axis) and the helper axis lists \<^verbatim>\<open>get_reduce_axes()\<close> and
  \<^verbatim>\<open>get_local_axes()\<close>.
\<close>

datatype tc_kind = U | L

record TensorCore =
  dims :: "int list"
  dtype_in :: DType
  dtype_out :: DType
  tc_program :: "(tc_kind \<times> int) list"
  get_reduce_axes :: "(int \<times> int) list"
  get_local_axes :: "(int \<times> int) list"

record Renderer =
  device :: string
  has_local :: bool
  has_shared :: bool
  shared_max :: int
  tensor_cores :: "TensorCore list"

record TensorCoreOptions =
  axes :: "int list"
  axes_exist :: "bool list"
  axis_pads :: "(int \<times> int) list"

subsection \<open>Kernel state\<close>

text \<open>
  The fields of \<^verbatim>\<open>Kernel.__init__\<close>. The shape-tracker type \<open>'st\<close> is a parameter:
  \<^verbatim>\<open>tinygrad.shape.shapetracker\<close> is not among the source files.
\<close>

record 'st Kernel =
  ast :: UOp
  opts :: Renderer
  reduceops :: "UOp list"
  vars :: "UOp list"
  bufs :: "UOp list"
  full_buf_index :: nat
  sts :: "'st list"
  applied_opts :: "Opt list"
  group_for_reduces :: int
  upcasted :: int
  local_dims :: int
  tensor_core :: "TensorCore option"
  tensor_core_opts :: "TensorCoreOptions option"
  use_tensor_cores :: int
  dont_use_locals :: bool

subsection \<open>External collaborators\<close>

text \<open>
  What \<^verbatim>\<open>kernel.py\<close> calls and the source files do not contain is a parameter of the
  model:
  \<^item> the shape-tracker operations \<^verbatim>\<open>shape\<close>, \<^verbatim>\<open>real_strides()\<close>, \<^verbatim>\<open>reshape\<close>,
    \<^verbatim>\<open>permute\<close> and \<^verbatim>\<open>pad\<close>, each of which may raise;
  \<^item> arithmetic and comparison with a symbolic operand (\<^verbatim>\<open>tinygrad.ops\<close>):
    \<open>resolve_ne x y\<close> is \<^verbatim>\<open>resolve(x != y)\<close>, \<open>sym_cond c x y\<close> is the truth value Python
    takes from the comparison \<open>c\<close> where a condition is tested, \<open>sym_binop b x y\<close> is the
    value of the arithmetic expression;
  \<^item> \<^verbatim>\<open>can_pad(r, {}, cache={})\<close> of \<^verbatim>\<open>tinygrad.ops\<close> and the context variable
    \<^verbatim>\<open>USE_TC\<close> of \<^verbatim>\<open>tinygrad.helpers\<close>;
  \<^item> the extra row of fake strides that \<^verbatim>\<open>simplify_merge_adjacent\<close> adds for an image
    buffer (\<^verbatim>\<open>membufs\<close>, \<^verbatim>\<open>ImageDType\<close>, \<^verbatim>\<open>get_contraction\<close>, \<^verbatim>\<open>strides_for_shape\<close>), as
    a function of the buffers and the output shape.
  On two Python ints the model computes itself.
\<close>

datatype cmp = Gt | Le | Ne

datatype binop = Mul | FloorDiv | Mod | Add | Sub

record 'st ext =
  st_shape :: "'st \<Rightarrow> sint list"
  st_real_strides :: "'st \<Rightarrow> sint option list"
  st_reshape :: "'st \<Rightarrow> sint list \<Rightarrow> error + 'st"
  st_permute :: "'st \<Rightarrow> int list \<Rightarrow> error + 'st"
  st_pad :: "'st \<Rightarrow> (sint \<times> sint) list \<Rightarrow> error + 'st"
  resolve_ne :: "sint \<Rightarrow> sint \<Rightarrow> bool"
  sym_cond :: "cmp \<Rightarrow> sint \<Rightarrow> sint \<Rightarrow> error + bool"
  sym_binop :: "binop \<Rightarrow> sint \<Rightarrow> sint \<Rightarrow> error + sint"
  can_pad :: "UOp \<Rightarrow> bool"
  USE_TC :: int
  image_row :: "UOp list \<Rightarrow> sint list \<Rightarrow> error + (sint list \<times> sint option list) option"

section \<open>Python semantics\<close>

subsection \<open>Outcomes\<close>

type_synonym ('s, 'a) prog = "'s \<Rightarrow> (error + 'a) \<times> 's"

definition bindE :: "error + 'a \<Rightarrow> ('a \<Rightarrow> error + 'b) \<Rightarrow> error + 'b" where
  "bindE r f = (case r of Inl e \<Rightarrow> Inl e | Inr x \<Rightarrow> f x)"

fun mapE :: "('a \<Rightarrow> error + 'b) \<Rightarrow> 'a list \<Rightarrow> error + 'b list" where
  "mapE f [] = Inr []"
| "mapE f (x # xs) = bindE (f x) (\<lambda>y. bindE (mapE f xs) (\<lambda>ys. Inr (y # ys)))"

definition return :: "'a \<Rightarrow> ('s, 'a) prog" where
  "return x = (\<lambda>s. (Inr x, s))"

definition raise :: "error \<Rightarrow> ('s, 'a) prog" where
  "raise e = (\<lambda>s. (Inl e, s))"

definition bind :: "('s, 'a) prog \<Rightarrow> ('a \<Rightarrow> ('s, 'b) prog) \<Rightarrow> ('s, 'b) prog" where
  "bind m f = (\<lambda>s. case m s of (Inl e, s') \<Rightarrow> (Inl e, s') | (Inr x, s') \<Rightarrow> f x s')"

text \<open>Reading a property of the state, which may raise and changes nothing.\<close>

definition reading :: "('s \<Rightarrow> error + 'a) \<Rightarrow> ('s, 'a) prog" where
  "reading g = (\<lambda>s. (g s, s))"

definition modify :: "('s \<Rightarrow> 's) \<Rightarrow> ('s, unit) prog" where
  "modify g = (\<lambda>s. (Inr (), g s))"

definition check :: "bool \<Rightarrow> msg \<Rightarrow> ('s, unit) prog" where
  "check cond m = (if cond then return () else raise (KernelOptError m))"

fun for_each :: "'a list \<Rightarrow> ('a \<Rightarrow> ('s, unit) prog) \<Rightarrow> ('s, unit) prog" where
  "for_each [] body = return ()"
| "for_each (x # xs) body = bind (body x) (\<lambda>_. for_each xs body)"

subsection \<open>Lists\<close>

text \<open>A slice bound: negative bounds count from the end, and bounds are clamped.\<close>

definition py_norm :: "nat \<Rightarrow> int \<Rightarrow> nat" where
  "py_norm n i = nat (if i < 0 then max (i + int n) 0 else min i (int n))"

definition py_slice :: "'a list \<Rightarrow> int \<Rightarrow> int \<Rightarrow> 'a list" where
  "py_slice xs lo hi =
     (let l = py_norm (length xs) lo; h = py_norm (length xs) hi in take (h - l) (drop l xs))"

definition py_slice_from :: "'a list \<Rightarrow> int \<Rightarrow> 'a list" where
  "py_slice_from xs lo = drop (py_norm (length xs) lo) xs"

definition py_slice_to :: "'a list \<Rightarrow> int \<Rightarrow> 'a list" where
  "py_slice_to xs hi = take (py_norm (length xs) hi) xs"

text \<open>
  The position an index denotes in a list of length \<open>n\<close>: a negative index counts from
  the end, and an index outside \<open>[-n, n)\<close> denotes none (\<^verbatim>\<open>IndexError\<close>).
\<close>

definition py_pos :: "nat \<Rightarrow> int \<Rightarrow> nat option" where
  "py_pos n i =
     (if 0 \<le> i \<and> i < int n then Some (nat i)
      else if - int n \<le> i \<and> i < 0 then Some (nat (int n + i))
      else None)"

definition py_index :: "'a list \<Rightarrow> int \<Rightarrow> error + 'a" where
  "py_index xs i = (case py_pos (length xs) i of None \<Rightarrow> Inl IndexError | Some j \<Rightarrow> Inr (xs ! j))"

definition py_update :: "'a list \<Rightarrow> int \<Rightarrow> 'a \<Rightarrow> error + 'a list" where
  "py_update xs i v =
     (case py_pos (length xs) i of None \<Rightarrow> Inl IndexError | Some j \<Rightarrow> Inr (xs[j := v]))"

definition py_range :: "int \<Rightarrow> int \<Rightarrow> int list" where
  "py_range lo hi = [lo..hi - 1]"

text \<open>\<^verbatim>\<open>xs.index(True)\<close>, which raises \<^verbatim>\<open>ValueError\<close> when no entry is true.\<close>

fun index_True :: "bool list \<Rightarrow> error + int" where
  "index_True [] = Inl ValueError"
| "index_True (b # bs) = (if b then Inr 0 else bindE (index_True bs) (\<lambda>i. Inr (i + 1)))"

subsection \<open>Arithmetic on shape entries\<close>

definition sint_cond :: "'st ext \<Rightarrow> cmp \<Rightarrow> sint \<Rightarrow> sint \<Rightarrow> error + bool" where
  "sint_cond E c x y =
     (case (x, y) of
        (I a, I b) \<Rightarrow> Inr (case c of Gt \<Rightarrow> b < a | Le \<Rightarrow> a \<le> b | Ne \<Rightarrow> a \<noteq> b)
      | _ \<Rightarrow> sym_cond E c x y)"

definition sint_binop :: "'st ext \<Rightarrow> binop \<Rightarrow> sint \<Rightarrow> sint \<Rightarrow> error + sint" where
  "sint_binop E b x y =
     (case (x, y) of
        (I m, I n) \<Rightarrow>
          (case b of
             Mul \<Rightarrow> Inr (I (m * n))
           | Add \<Rightarrow> Inr (I (m + n))
           | Sub \<Rightarrow> Inr (I (m - n))
           | FloorDiv \<Rightarrow> if n = 0 then Inl ZeroDivisionError else Inr (I (m div n))
           | Mod \<Rightarrow> if n = 0 then Inl ZeroDivisionError else Inr (I (m mod n)))
      | _ \<Rightarrow> sym_binop E b x y)"

text \<open>\<^verbatim>\<open>resolve(x != y)\<close>.\<close>

definition resolve_neq :: "'st ext \<Rightarrow> sint \<Rightarrow> sint \<Rightarrow> bool" where
  "resolve_neq E x y = (case (x, y) of (I a, I b) \<Rightarrow> a \<noteq> b | _ \<Rightarrow> resolve_ne E x y)"

text \<open>\<^verbatim>\<open>prod(xs)\<close> of \<^verbatim>\<open>tinygrad.helpers\<close>: the left fold of \<^verbatim>\<open>*\<close> from 1.\<close>

fun prod_from :: "'st ext \<Rightarrow> sint \<Rightarrow> sint list \<Rightarrow> error + sint" where
  "prod_from E acc [] = Inr acc"
| "prod_from E acc (x # xs) = bindE (sint_binop E Mul acc x) (\<lambda>acc'. prod_from E acc' xs)"

definition prod :: "'st ext \<Rightarrow> sint list \<Rightarrow> error + sint" where
  "prod E xs = prod_from E (I 1) xs"

section \<open>Kernel properties\<close>

definition output_shape :: "'st ext \<Rightarrow> 'st Kernel \<Rightarrow> error + sint list" where
  "output_shape E k = (case sts k of [] \<Rightarrow> Inl IndexError | st # _ \<Rightarrow> Inr (st_shape E st))"

definition full_shape :: "'st ext \<Rightarrow> 'st Kernel \<Rightarrow> error + sint list" where
  "full_shape E k =
     (if full_buf_index k < length (sts k) then Inr (st_shape E (sts k ! full_buf_index k))
      else Inl IndexError)"

definition shape_len :: "'st ext \<Rightarrow> 'st Kernel \<Rightarrow> error + int" where
  "shape_len E k = bindE (output_shape E k) (\<lambda>s. Inr (int (length s)))"

definition first_upcast :: "'st ext \<Rightarrow> 'st Kernel \<Rightarrow> error + int" where
  "first_upcast E k = bindE (shape_len E k) (\<lambda>n. Inr (n - upcasted k))"

definition first_reduce :: "'st ext \<Rightarrow> 'st Kernel \<Rightarrow> error + int" where
  "first_reduce E k =
     bindE (output_shape E k) (\<lambda>os.
     bindE (first_upcast E k) (\<lambda>fu.
     bindE (full_shape E k) (\<lambda>fs.
       index_True (map (\<lambda>(x, y). resolve_neq E x y)
         (zip (py_slice_to os fu @ [I 0]) (py_slice_to fs fu @ [I 1]))))))"

definition reduceop :: "'st Kernel \<Rightarrow> UOp option" where
  "reduceop k = (case reduceops k of [] \<Rightarrow> None | r # _ \<Rightarrow> Some r)"

definition global_dims :: "'st ext \<Rightarrow> 'st Kernel \<Rightarrow> error + int" where
  "global_dims E k = bindE (first_reduce E k) (\<lambda>fr. Inr (fr - local_dims k))"

section \<open>Base simplifiers\<close>

text \<open>
  \<^verbatim>\<open>reshape_and_permute\<close> builds the new list of shape-trackers in a comprehension and
  assigns it at the end: when a reshape or a permute raises, \<^verbatim>\<open>self.sts\<close> is untouched.
\<close>

definition reshape_and_permute ::
  "'st ext \<Rightarrow> (sint list \<Rightarrow> error + sint list) option \<Rightarrow> int list option \<Rightarrow> ('st Kernel, unit) prog"
where
  "reshape_and_permute E new_shape_fxn perm =
     bind (reading (\<lambda>k. mapE (\<lambda>st.
             bindE (case new_shape_fxn of
                      None \<Rightarrow> Inr st
                    | Some f \<Rightarrow> bindE (f (st_shape E st)) (st_reshape E st))
               (\<lambda>st'. case perm of None \<Rightarrow> Inr st' | Some p \<Rightarrow> st_permute E st' p))
           (sts k)))
       (\<lambda>new_sts. modify (\<lambda>k. k\<lparr>sts := new_sts\<rparr>))"

definition upcast :: "'st ext \<Rightarrow> ('st Kernel, unit) prog" where
  "upcast E =
     bind (reading (\<lambda>k. bindE (full_shape E k) (\<lambda>fs. bindE (py_index fs (- 1)) (\<lambda>x.
             sint_cond E Ne x (I 1))))) (\<lambda>c.
     bind (check c UpcastSizeOne) (\<lambda>_.
     modify (\<lambda>k. k\<lparr>upcasted := upcasted k + 1\<rparr>)))"

text \<open>The reshape function that \<^verbatim>\<open>shift_to\<close> passes (its \<^verbatim>\<open>lambda x\<close>).\<close>

definition shift_shape :: "'st ext \<Rightarrow> int \<Rightarrow> int \<Rightarrow> bool \<Rightarrow> sint list \<Rightarrow> error + sint list" where
  "shift_shape E ax amount from_top x =
     bindE (py_index x ax) (\<lambda>xa.
     bindE (sint_cond E Gt xa (I 1)) (\<lambda>c.
     bindE (if c then bindE (sint_binop E FloorDiv xa (I amount)) (\<lambda>q.
                   Inr (if from_top then [I amount, q] else [q, I amount]))
            else Inr [I 1, I 1]) (\<lambda>mid.
     Inr (py_slice x 0 ax @ mid @ py_slice_from x (ax + 1)))))"

definition shift_to :: "'st ext \<Rightarrow> int \<Rightarrow> int \<Rightarrow> bool \<Rightarrow> int option \<Rightarrow> ('st Kernel, unit) prog" where
  "shift_to E ax amount from_top insert_before =
     bind (reading (shape_len E)) (\<lambda>n.
       let ib0 = (case insert_before of None \<Rightarrow> n | Some b \<Rightarrow> b);
           move_axis = (if from_top then ax else ax + 1);
           ib = (if move_axis < ib0 then ib0 + 1 else ib0)
       in reshape_and_permute E (Some (shift_shape E ax amount from_top))
            (Some (filter (\<lambda>i. i \<noteq> move_axis) (py_range 0 ib) @ [move_axis]
                   @ filter (\<lambda>i. i \<noteq> move_axis) (py_range ib (n + 1)))))"

section \<open>Complex simplifiers\<close>

text \<open>\<^verbatim>\<open>sum\<close> of a list of booleans.\<close>

definition count_True :: "bool list \<Rightarrow> int" where
  "count_True bs = int (length (filter (\<lambda>b. b) bs))"

text \<open>The reshape function of \<^verbatim>\<open>simplify_ones\<close>; \<^verbatim>\<open>all_ones[i]\<close> raises out of range.\<close>

fun drop_ones :: "bool list \<Rightarrow> int \<Rightarrow> sint list \<Rightarrow> error + sint list" where
  "drop_ones all_ones i [] = Inr []"
| "drop_ones all_ones i (x # xs) =
     bindE (py_index all_ones i) (\<lambda>one.
     bindE (drop_ones all_ones (i + 1) xs) (\<lambda>r. Inr (if one then r else x # r)))"

definition simplify_ones :: "'st ext \<Rightarrow> ('st Kernel, bool) prog" where
  "simplify_ones E =
     bind (reading (shape_len E)) (\<lambda>n.
     if n = 0 then return False
     else
       bind (reading (full_shape E)) (\<lambda>fs.
       let all_ones = map (\<lambda>s. s = I 1) fs in
       bind (reading (first_reduce E)) (\<lambda>fr.
       bind (modify (\<lambda>k. k\<lparr>local_dims :=
               local_dims k - count_True (py_slice all_ones (fr - local_dims k) fr)\<rparr>)) (\<lambda>_.
       bind (reading (first_upcast E)) (\<lambda>fu.
       bind (modify (\<lambda>k. k\<lparr>upcasted := upcasted k - count_True (py_slice_from all_ones fu)\<rparr>)) (\<lambda>_.
       bind (reshape_and_permute E (Some (drop_ones all_ones 0)) None) (\<lambda>_.
       return (\<exists>b \<in> set all_ones. b))))))))"

section \<open>Tensor-core options\<close>

text \<open>
  \<^verbatim>\<open>TensorCoreOptions.fix_axes\<close>. The two tuples are copied, updated for each of the first
  two axes that still exists, and assigned at the end.
\<close>

fun fix_loop :: "int \<Rightarrow> int list \<Rightarrow> int list \<times> bool list \<Rightarrow> error + int list \<times> bool list" where
  "fix_loop removed_axis [] (axs, ex) = Inr (axs, ex)"
| "fix_loop removed_axis (tc_dim # ds) (axs, ex) =
     bindE (py_index axs tc_dim) (\<lambda>a.
     bindE (if removed_axis < a then bindE (py_update axs tc_dim (a - 1)) (\<lambda>axs'. Inr (axs', ex))
            else if removed_axis = a then bindE (py_update ex tc_dim False) (\<lambda>ex'. Inr (axs, ex'))
            else Inr (axs, ex))
       (fix_loop removed_axis ds))"

definition fix_axes :: "int \<Rightarrow> TensorCoreOptions \<Rightarrow> error + TensorCoreOptions" where
  "fix_axes removed_axis t =
     bindE (mapE (py_index (axes_exist t)) [0, 1]) (\<lambda>ex.
     bindE (fix_loop removed_axis (map fst (filter snd (zip [0, 1] ex))) (axes t, axes_exist t))
       (\<lambda>(axs', ex'). Inr (t\<lparr>axes := axs', axes_exist := ex'\<rparr>)))"

section \<open>The opt catalogue\<close>

definition real_axis :: "'st ext \<Rightarrow> Opt \<Rightarrow> 'st Kernel \<Rightarrow> error + int" where
  "real_axis E opt k =
     (case axis opt of
        None \<Rightarrow> Inr (- 1)
      | Some a \<Rightarrow>
          if op opt = UNROLL then bindE (first_reduce E k) (\<lambda>fr. Inr (fr + a))
          else if op opt \<in> {GROUP, GROUPTOP}
            then bindE (first_reduce E k) (\<lambda>fr. Inr (fr + group_for_reduces k + a))
          else Inr a)"

text \<open>
  The amount of an opt (the \<^verbatim>\<open>if opt.op is OptOps.SWAP ... else: amt = -1\<close> block of
  \<^verbatim>\<open>apply_opt\<close>). For a \<^verbatim>\<open>SWAP\<close> it is the arg as it stands; otherwise it is an int.
\<close>

definition amount_value :: "'st ext \<Rightarrow> int \<Rightarrow> int \<Rightarrow> 'st Kernel \<Rightarrow> error + sint" where
  \<comment> \<open>\<^verbatim>\<open>arg if arg != 0 else self.full_shape[axis]\<close>\<close>
  "amount_value E a ax k =
     (if a \<noteq> 0 then Inr (I a) else bindE (full_shape E k) (\<lambda>fs. py_index fs ax))"

definition opt_amount :: "'st ext \<Rightarrow> Opt \<Rightarrow> int \<Rightarrow> ('st Kernel, OptArg) prog" where
  "opt_amount E opt ax =
     (if op opt = SWAP then return (arg opt)
      else case arg opt of
        ArgNone \<Rightarrow> return (ArgInt (- 1))
      | ArgTuple _ \<Rightarrow> raise (KernelOptError ArgNotInt)
      | ArgInt a \<Rightarrow>
          bind (reading (amount_value E a ax)) (\<lambda>amt.
          case amt of
            Sym _ \<Rightarrow> raise (KernelOptError MeaninglessAmt)
          | I n \<Rightarrow>
              bind (check (n \<noteq> 1) MeaninglessAmt) (\<lambda>_.
              bind (if op opt \<noteq> PADTO
                    then bind (reading (\<lambda>k. bindE (full_shape E k) (\<lambda>fs.
                                 bindE (py_index fs ax) (\<lambda>x. sint_binop E Mod x (I n))))) (\<lambda>r.
                         check (r = I 0) InvalidShift)
                    else return ()) (\<lambda>_.
              return (ArgInt n)))))"

text \<open>
  The shared-memory block of \<^verbatim>\<open>apply_opt\<close>. \<open>smem_sz\<close> is
  \<^verbatim>\<open>amt*acc_sz*upcast_sz*local_sz\<close>; an amount that is not an int (the arg of a
  \<^verbatim>\<open>SWAP\<close> that is absent or a tuple) makes the product or its comparison a
  \<^verbatim>\<open>TypeError\<close>.
\<close>

definition upcast_sz :: "'st ext \<Rightarrow> 'st Kernel \<Rightarrow> error + sint" where
  "upcast_sz E k =
     bindE (full_shape E k) (\<lambda>fs.
     bindE (first_upcast E k) (\<lambda>fu.
     bindE (output_shape E k) (\<lambda>os.
       prod E (map fst (filter (\<lambda>(a, b). a = b) (zip (py_slice_from fs fu) (py_slice_from os fu)))))))"

definition local_sz :: "'st ext \<Rightarrow> 'st Kernel \<Rightarrow> error + sint" where
  "local_sz E k =
     bindE (full_shape E k) (\<lambda>fs.
     bindE (first_reduce E k) (\<lambda>fr.
       prod E (py_slice fs (fr - local_dims k) (fr + group_for_reduces k))))"

definition smem_sz :: "'st ext \<Rightarrow> UOp \<Rightarrow> OptArg \<Rightarrow> 'st Kernel \<Rightarrow> error + sint" where
  "smem_sz E r amt k =
     bindE (upcast_sz E k) (\<lambda>u.
     bindE (local_sz E k) (\<lambda>l.
       case amt of
         ArgInt n \<Rightarrow> bindE (sint_binop E Mul (I (n * itemsize (uop_dtype r))) u) (\<lambda>x.
                      sint_binop E Mul x l)
       | _ \<Rightarrow> Inl TypeError))"

definition smem_applies :: "Opt \<Rightarrow> 'st Kernel \<Rightarrow> bool" where
  "smem_applies opt k \<longleftrightarrow>
     reduceop k \<noteq> None \<and>
     (op opt \<in> {GROUP, GROUPTOP} \<or> (group_for_reduces k \<noteq> 0 \<and> op opt \<notin> {NOLOCALS, PADTO}))"

definition smem_check :: "'st ext \<Rightarrow> Opt \<Rightarrow> OptArg \<Rightarrow> ('st Kernel, unit) prog" where
  "smem_check E opt amt =
     bind (reading (\<lambda>k. Inr (smem_applies opt k, reduceop k, shared_max (opts k)))) (\<lambda>(applies, r, mx).
     if applies then
       bind (reading (smem_sz E (the r) amt)) (\<lambda>sz.
       bind (reading (\<lambda>_. sint_cond E Le sz (I mx))) (\<lambda>c.
       check c (ExceedsSharedMem sz mx)))
     else return ())"

text \<open>The amount where an int is needed.\<close>

definition int_amt :: "OptArg \<Rightarrow> ('s, int) prog" where
  "int_amt amt = (case amt of ArgInt n \<Rightarrow> return n | _ \<Rightarrow> raise TypeError)"

subsection \<open>The branches of \<^verbatim>\<open>apply_opt\<close>\<close>

definition opt_LOCAL :: "'st ext \<Rightarrow> int \<Rightarrow> int \<Rightarrow> ('st Kernel, unit) prog" where
  "opt_LOCAL E ax amt =
     bind (reading (\<lambda>k. Inr (has_local (opts k)))) (\<lambda>hl.
     bind (check hl NoLocalSupport) (\<lambda>_.
     bind (reading (global_dims E)) (\<lambda>gd.
     bind (check (ax < gd) LocalIsForGlobals) (\<lambda>_.
     bind (reading (first_reduce E)) (\<lambda>fr.
     bind (shift_to E ax amt False (Some fr)) (\<lambda>_.
     modify (\<lambda>k. k\<lparr>local_dims := local_dims k + 1\<rparr>)))))))"

text \<open>\<^verbatim>\<open>r.axis_arg\<close>: the axes of a \<^verbatim>\<open>REDUCE_AXIS\<close> node.\<close>

definition axis_arg :: "UOp \<Rightarrow> error + int list" where
  "axis_arg r = (case uop_arg r of ReduceArg _ axs \<Rightarrow> Inr axs | _ \<Rightarrow> Inl AssertionError)"

definition opt_GROUP :: "'st ext \<Rightarrow> bool \<Rightarrow> int \<Rightarrow> int \<Rightarrow> ('st Kernel, unit) prog" where
  "opt_GROUP E is_top ax amt =
     bind (reading (\<lambda>k. Inr (has_local (opts k) \<and> has_shared (opts k)))) (\<lambda>hl.
     bind (check hl NoLocalOrShared) (\<lambda>_.
     bind (reading (first_reduce E)) (\<lambda>fr.
     bind (reading (\<lambda>k. if fr + group_for_reduces k \<le> ax
                         then bindE (first_upcast E k) (\<lambda>fu. Inr (ax < fu)) else Inr False)) (\<lambda>c.
     bind (check c MustBeReduceAxis) (\<lambda>_.
     bind (reading (\<lambda>k. Inr (tensor_core k = None))) (\<lambda>no_tc.
     bind (check no_tc GroupWithTC) (\<lambda>_.
     bind (reading (\<lambda>k. bindE (mapE axis_arg (reduceops k)) (\<lambda>as. Inr (concat as)))) (\<lambda>reduce_axes.
     bind (check (distinct reduce_axes) GroupParallelReduces) (\<lambda>_.
     bind (reading (\<lambda>k. bindE (first_reduce E k) (\<lambda>fr'. Inr (fr' + group_for_reduces k)))) (\<lambda>ib.
     bind (shift_to E ax amt is_top (Some ib)) (\<lambda>_.
     modify (\<lambda>k. k\<lparr>group_for_reduces := group_for_reduces k + 1\<rparr>))))))))))))"

text \<open>The test \<^verbatim>\<open>self.full_shape[axis] == amt\<close> of the \<^verbatim>\<open>UNROLL\<close> branch.\<close>

definition full_axis_is :: "'st ext \<Rightarrow> int \<Rightarrow> int \<Rightarrow> 'st Kernel \<Rightarrow> error + bool" where
  "full_axis_is E ax amt k =
     bindE (full_shape E k) (\<lambda>fs. bindE (py_index fs ax) (\<lambda>x. Inr (x = I amt)))"

definition opt_UNROLL :: "'st ext \<Rightarrow> int \<Rightarrow> int \<Rightarrow> ('st Kernel, unit) prog" where
  "opt_UNROLL E ax amt =
     bind (reading (first_upcast E)) (\<lambda>fu.
     bind (check (ax < fu) AlreadyUpcasted) (\<lambda>_.
     bind (check (amt \<le> 32) UnrollTooMuch) (\<lambda>_.
     bind (reading (\<lambda>k. bindE (full_axis_is E ax amt k) (\<lambda>whole.
             if whole then bindE (first_reduce E k) (\<lambda>fr. Inr (ax = fr)) else Inr False))) (\<lambda>c1.
     bind (if c1 then modify (\<lambda>k. k\<lparr>local_dims := local_dims k + 1\<rparr>) else return ()) (\<lambda>_.
     bind (reading (\<lambda>k. bindE (full_axis_is E ax amt k) (\<lambda>whole.
             if whole then bindE (first_reduce E k) (\<lambda>fr. Inr (ax < fr + group_for_reduces k))
             else Inr False))) (\<lambda>c2.
     bind (if c2 then modify (\<lambda>k. k\<lparr>group_for_reduces := group_for_reduces k - 1\<rparr>)
           else return ()) (\<lambda>_.
     bind (shift_to E ax amt False None) (\<lambda>_.
     upcast E))))))))"

definition opt_UPCAST :: "'st ext \<Rightarrow> int \<Rightarrow> int \<Rightarrow> ('st Kernel, unit) prog" where
  "opt_UPCAST E ax amt =
     bind (reading (first_reduce E)) (\<lambda>fr.
     bind (check (ax < fr) UpcastIsForNonReduce) (\<lambda>_.
     bind (reading (\<lambda>k. case tensor_core k of
                           None \<Rightarrow> Inr False
                         | Some tc \<Rightarrow> bindE (global_dims E k) (\<lambda>gd.
                             Inr (gd \<le> ax \<and> ax < gd + int (length (get_local_axes tc)))))) (\<lambda>tc_local.
     bind (check (\<not> tc_local) UpcastTCLocals) (\<lambda>_.
     bind (reading (\<lambda>k. Inr (device (opts k) = ''DSP'' \<or> amt \<le> 16))) (\<lambda>c.
     bind (check c UpcastTooMuch) (\<lambda>_.
     bind (shift_to E ax amt False None) (\<lambda>_.
     upcast E)))))))"

definition opt_NOLOCALS :: "('st Kernel, unit) prog" where
  "opt_NOLOCALS =
     bind (reading (\<lambda>k. Inr (has_local (opts k) \<and> \<not> dont_use_locals k))) (\<lambda>c.
     bind (check c NoLocalsMeaningless) (\<lambda>_.
     bind (reading (\<lambda>k. Inr (local_dims k = 0 \<and> group_for_reduces k = 0))) (\<lambda>c'.
     bind (check c' NoLocalsWithLocals) (\<lambda>_.
     modify (\<lambda>k. k\<lparr>dont_use_locals := True\<rparr>)))))"

definition opt_SWAP :: "'st ext \<Rightarrow> int \<Rightarrow> int \<Rightarrow> ('st Kernel, unit) prog" where
  "opt_SWAP E ax amt =
     bind (reading (\<lambda>k. if ax < amt then bindE (global_dims E k) (\<lambda>gd. Inr (amt < gd))
                         else Inr False)) (\<lambda>c.
     bind (check c SwapGlobalsOnly) (\<lambda>_.
     bind (reading (shape_len E)) (\<lambda>n.
     bind (reading (\<lambda>_. let permute = py_range 0 n in
             bindE (py_index permute amt) (\<lambda>pa.
             bindE (py_index permute ax) (\<lambda>px.
             bindE (py_update permute ax pa) (\<lambda>p1.
             py_update p1 amt px))))) (\<lambda>permute.
     reshape_and_permute E None (Some permute)))))"

text \<open>
  \<^verbatim>\<open>round_up(num, amt)\<close> of \<^verbatim>\<open>tinygrad.helpers\<close> is \<^verbatim>\<open>(num+amt-1)//amt * amt\<close>;
  \<open>pad_delta\<close> is \<^verbatim>\<open>round_up(s, amt) - s\<close>.
\<close>

definition pad_delta :: "'st ext \<Rightarrow> sint \<Rightarrow> int \<Rightarrow> error + sint" where
  "pad_delta E s amt =
     bindE (sint_binop E Add s (I amt)) (\<lambda>a.
     bindE (sint_binop E Sub a (I 1)) (\<lambda>b.
     bindE (sint_binop E FloorDiv b (I amt)) (\<lambda>c.
     bindE (sint_binop E Mul c (I amt)) (\<lambda>d.
     sint_binop E Sub d s))))"

text \<open>
  The loop of the \<^verbatim>\<open>PADTO\<close> branch over \<^verbatim>\<open>enumerate(self.sts)\<close>. Each tracker is checked
  and then padded in place, so a check that fails on a later tracker leaves the earlier
  ones padded. The result is the flag \<^verbatim>\<open>padded\<close>.
\<close>

fun padto_loop :: "'st ext \<Rightarrow> int \<Rightarrow> int \<Rightarrow> (nat \<times> 'st) list \<Rightarrow> bool \<Rightarrow> ('st Kernel, bool) prog" where
  "padto_loop E ax amt [] padded = return padded"
| "padto_loop E ax amt ((i, st) # rest) padded =
     bind (reading (\<lambda>_. py_index (st_shape E st) ax)) (\<lambda>s.
     if s = I 1 then padto_loop E ax amt rest padded
     else
       bind (reading (\<lambda>_. sint_cond E Gt s (I (amt div 4)))) (\<lambda>c.
       bind (check c PadQuadruple) (\<lambda>_.
       bind (reading (\<lambda>_. bindE (pad_delta E s amt) (\<lambda>ru.
               bindE (sint_cond E Ne ru (I 0)) (\<lambda>nz. Inr (ru, nz))))) (\<lambda>(ru, nz).
       if nz then
         bind (reading (\<lambda>_. st_pad E st
                 (replicate (nat ax) (I 0, I 0) @ [(I 0, ru)]
                  @ replicate (nat (int (length (st_shape E st)) - ax - 1)) (I 0, I 0)))) (\<lambda>st'.
         bind (modify (\<lambda>k. k\<lparr>sts := (sts k)[i := st']\<rparr>)) (\<lambda>_.
         padto_loop E ax amt rest True))
       else padto_loop E ax amt rest padded))))"

text \<open>\<^verbatim>\<open>r.arg[0]\<close>: the reduction kind of a \<^verbatim>\<open>REDUCE_AXIS\<close> node.\<close>

definition reduce_kind :: "UOp \<Rightarrow> error + Ops" where
  "reduce_kind r = (case uop_arg r of ReduceArg kind _ \<Rightarrow> Inr kind | _ \<Rightarrow> Inl TypeError)"

definition opt_PADTO :: "'st ext \<Rightarrow> int \<Rightarrow> int \<Rightarrow> ('st Kernel, unit) prog" where
  "opt_PADTO E ax amt =
     bind (reading (\<lambda>k. Inr (vars k = []))) (\<lambda>no_vars.
     bind (check no_vars SymbolicShape) (\<lambda>_.
     bind (reading (first_upcast E)) (\<lambda>fu.
     bind (check (ax < fu) PadUpcasted) (\<lambda>_.
     bind (reading (\<lambda>k. case reduceop k of
                           None \<Rightarrow> Inr True
                         | Some r \<Rightarrow> bindE (first_reduce E k) (\<lambda>fr.
                             if fr \<le> ax
                             then bindE (reduce_kind r) (\<lambda>kind. Inr (kind = ADD \<and> can_pad E r))
                             else Inr True))) (\<lambda>c.
     bind (check c CannotPad) (\<lambda>_.
     bind (reading (\<lambda>k. Inr (zip [0..<length (sts k)] (sts k)))) (\<lambda>ists.
     bind (padto_loop E ax amt ists False) (\<lambda>padded.
     check padded NothingPadded))))))))"

subsection \<open>\<^verbatim>\<open>apply_opt\<close> for an opt other than \<^verbatim>\<open>TC\<close>\<close>

text \<open>
  The end of \<^verbatim>\<open>apply_opt\<close>: record the opt, run \<^verbatim>\<open>simplify_ones\<close> and, when it removed
  an axis and tensor-core options exist, fix their axes.
\<close>

definition finish_opt :: "'st ext \<Rightarrow> Opt \<Rightarrow> bool \<Rightarrow> int \<Rightarrow> ('st Kernel, unit) prog" where
  "finish_opt E opt append_opt ax =
     bind (if append_opt then modify (\<lambda>k. k\<lparr>applied_opts := applied_opts k @ [opt]\<rparr>)
           else return ()) (\<lambda>_.
     bind (simplify_ones E) (\<lambda>removed.
     bind (reading (\<lambda>k. Inr (tensor_core_opts k))) (\<lambda>tco.
     if removed \<and> tco \<noteq> None then
       bind (reading (\<lambda>_. fix_axes ax (the tco))) (\<lambda>tco'.
       modify (\<lambda>k. k\<lparr>tensor_core_opts := Some tco'\<rparr>))
     else return ())))"

definition opt_branch :: "'st ext \<Rightarrow> Opt \<Rightarrow> int \<Rightarrow> OptArg \<Rightarrow> ('st Kernel, unit) prog" where
  "opt_branch E opt ax amt =
     (case op opt of
        LOCAL \<Rightarrow> bind (int_amt amt) (opt_LOCAL E ax)
      | GROUP \<Rightarrow> bind (int_amt amt) (opt_GROUP E False ax)
      | GROUPTOP \<Rightarrow> bind (int_amt amt) (opt_GROUP E True ax)
      | UNROLL \<Rightarrow> bind (int_amt amt) (opt_UNROLL E ax)
      | UPCAST \<Rightarrow> bind (int_amt amt) (opt_UPCAST E ax)
      | NOLOCALS \<Rightarrow> opt_NOLOCALS
      | SWAP \<Rightarrow> bind (int_amt amt) (opt_SWAP E ax)
      | PADTO \<Rightarrow> bind (int_amt amt) (opt_PADTO E ax)
      | TC \<Rightarrow> return ())"

text \<open>Lines 356 to 431 of \<^verbatim>\<open>apply_opt\<close>: what follows the \<^verbatim>\<open>TC\<close> branch.\<close>

definition apply_opt_rest :: "'st ext \<Rightarrow> Opt \<Rightarrow> bool \<Rightarrow> ('st Kernel, unit) prog" where
  "apply_opt_rest E opt append_opt =
     bind (reading (real_axis E opt)) (\<lambda>ax.
     bind (reading (\<lambda>k. bindE (full_shape E k) (\<lambda>fs. Inr (int (length fs))))) (\<lambda>n.
     bind (check (ax < n) InvalidAxis) (\<lambda>_.
     bind (opt_amount E opt ax) (\<lambda>amt.
     bind (smem_check E opt amt) (\<lambda>_.
     bind (opt_branch E opt ax amt) (\<lambda>_.
     finish_opt E opt append_opt ax))))))"

text \<open>The first line of \<^verbatim>\<open>apply_opt\<close>.\<close>

definition locals_check :: "Opt \<Rightarrow> ('st Kernel, unit) prog" where
  "locals_check opt =
     bind (reading (\<lambda>k. Inr (dont_use_locals k))) (\<lambda>d.
     if d then check (op opt \<notin> {LOCAL, GROUP, GROUPTOP}) NotUsingLocals else return ())"

definition apply_opt_nontc :: "'st ext \<Rightarrow> Opt \<Rightarrow> bool \<Rightarrow> ('st Kernel, unit) prog" where
  "apply_opt_nontc E opt append_opt = bind (locals_check opt) (\<lambda>_. apply_opt_rest E opt append_opt)"

section \<open>Tensor cores\<close>

text \<open>\<^verbatim>\<open>xs.index(x)\<close>, with \<open>None\<close> for the \<^verbatim>\<open>ValueError\<close>.\<close>

fun index_of :: "'a list \<Rightarrow> 'a \<Rightarrow> nat option" where
  "index_of [] y = None"
| "index_of (x # xs) y = (if x = y then Some 0 else map_option Suc (index_of xs y))"

text \<open>
  The local function \<^verbatim>\<open>buf_index\<close> of \<^verbatim>\<open>_create_tc_opts\<close>. Only the second lookup stands
  under the \<^verbatim>\<open>try\<close>: a \<^verbatim>\<open>LOAD\<close> that is not among the buffers raises.
\<close>

definition buf_index :: "'st Kernel \<Rightarrow> TensorCore \<Rightarrow> int \<Rightarrow> UOp \<Rightarrow> error + nat option" where
  "buf_index k tc opt_level s =
     (if uop_op s = LOAD \<and> uop_dtype s = dtype_in tc
      then (case index_of (bufs k) s of None \<Rightarrow> Inl ValueError | Some i \<Rightarrow> Inr (Some i))
      else if opt_level \<ge> 1 \<and> uop_op s = CAST \<and> uop_dtype s = dtype_in tc
      then bindE (py_index (uop_src s) 0) (\<lambda>s0. Inr (index_of (bufs k) s0))
      else Inr None)"

text \<open>
  The candidate axes of one operand: the axes before \<^verbatim>\<open>first_reduce\<close> where its stride is
  0, each with the reads of \<^verbatim>\<open>full_shape[i]\<close> and of the other operand's stride that the
  comprehension makes.
\<close>

definition zero_stride_axes ::
  "sint list \<Rightarrow> sint option list \<Rightarrow> sint option list \<Rightarrow> int \<Rightarrow> error + int list" where
  "zero_stride_axes fs mine other fr =
     mapE (\<lambda>(i, s). bindE (py_index fs i) (\<lambda>_. bindE (py_index other i) (\<lambda>_. Inr i)))
       (filter (\<lambda>(i, s). s = Some (I 0)) (zip (map int [0..<length mine]) (py_slice_to mine fr)))"

definition create_tc_opts ::
  "'st ext \<Rightarrow> 'st Kernel \<Rightarrow> UOp \<Rightarrow> TensorCore \<Rightarrow> int \<Rightarrow> int \<Rightarrow> error + TensorCoreOptions option" where
  "create_tc_opts E k r tc ax opt_level =
     (let has_cast = (dtype_in tc \<noteq> dtype_out tc) in
      bindE (if has_cast then bindE (py_index (uop_src r) 0) (\<lambda>s0.
                Inr (\<not> (uop_op s0 = CAST \<and> uop_dtype s0 = dtype_out tc))) else Inr False) (\<lambda>no_cast.
      if no_cast then Inr None else
      bindE (bindE (py_index (uop_src r) 0) (\<lambda>s0. if has_cast then py_index (uop_src s0) 0 else Inr s0))
        (\<lambda>mul_op.
      if uop_op mul_op \<noteq> MUL then Inr None else
      bindE (bindE (py_index (uop_src mul_op) 0) (buf_index k tc opt_level)) (\<lambda>b0.
      case b0 of None \<Rightarrow> Inr None | Some buf0 \<Rightarrow>
      bindE (bindE (py_index (uop_src mul_op) 1) (buf_index k tc opt_level)) (\<lambda>b1.
      case b1 of None \<Rightarrow> Inr None | Some buf1 \<Rightarrow>
      bindE (py_index (sts k) (int buf0)) (\<lambda>st0.
      bindE (py_index (sts k) (int buf1)) (\<lambda>st1.
      let buf0_strides = st_real_strides E st0; buf1_strides = st_real_strides E st1 in
      bindE (first_reduce E k) (\<lambda>fr.
      bindE (full_shape E k) (\<lambda>fs.
      bindE (zero_stride_axes fs buf0_strides buf1_strides fr) (\<lambda>axis_buf0.
      bindE (zero_stride_axes fs buf1_strides buf0_strides fr) (\<lambda>axis_buf1.
      bindE (shape_len E k) (\<lambda>n.
      if \<not> (axis_buf0 \<noteq> [] \<and> axis_buf1 \<noteq> [] \<and> (n - fr = 1 \<or> opt_level \<ge> 1)) then Inr None else
      let axis_choices = concat (map (\<lambda>a. concat (map (\<lambda>b. map (\<lambda>c. (a, b, c)) (py_range fr n))
                                                      axis_buf1)) axis_buf0) in
      if \<not> (ax < int (length axis_choices)) then Inr None else
      bindE (py_index axis_choices (- (ax + 1))) (\<lambda>(s0, s1, s2).
      bindE (mapE (\<lambda>(i, x). bindE (py_index fs x) (\<lambda>fx. bindE (py_index (dims tc) i) (\<lambda>d.
                     bindE (sint_binop E Mod fx (I d)) (\<lambda>m.
                     Inr (if resolve_neq E m (I 0) then [(x, d)] else [])))))
                  [(0, s0), (1, s1), (2, s2)]) (\<lambda>pads.
      let axis_pads = concat pads in
      if axis_pads \<noteq> [] \<and> opt_level < 2 then Inr None
      else Inr (Some \<lparr>axes = [s0, s1, s2], axes_exist = [True, True], axis_pads = axis_pads\<rparr>)
      ))))))))))))))"

text \<open>\<^verbatim>\<open>all_same(items)\<close> of \<^verbatim>\<open>tinygrad.helpers\<close>: every item equals the first.\<close>

definition all_same :: "'a list \<Rightarrow> bool" where
  "all_same items = (case items of [] \<Rightarrow> True | x # _ \<Rightarrow> list_all (\<lambda>y. y = x) items)"

text \<open>
  The \<^verbatim>\<open>try\<close> block of \<^verbatim>\<open>_apply_tc_opt\<close>: a \<^verbatim>\<open>PADTO\<close> per required pad, where a
  \<^verbatim>\<open>KernelOptError\<close> ends the attempt with this tensor core. The loop variable is the
  function's parameter \<^verbatim>\<open>axis\<close>, so the loop rebinds it; the result is whether every pad
  was applied, with the value the variable is left with.
\<close>

fun pad_loop :: "'st ext \<Rightarrow> (int \<times> int) list \<Rightarrow> int \<Rightarrow> ('st Kernel, bool \<times> int) prog" where
  "pad_loop E [] ax = return (True, ax)"
| "pad_loop E ((a, d) # ps) ax =
     (\<lambda>k. case apply_opt_nontc E (Opt PADTO (Some a) (ArgInt d)) False k of
             (Inl (KernelOptError _), k') \<Rightarrow> (Inr (False, a), k')
           | (Inl e, k') \<Rightarrow> (Inl e, k')
           | (Inr _, k') \<Rightarrow> pad_loop E ps a k')"

text \<open>
  \<^verbatim>\<open>tc_opts.axes[i]\<close>, read from the options stored in the kernel: \<^verbatim>\<open>tc_opts\<close> and
  \<^verbatim>\<open>self.tensor_core_opts\<close> are one object, which \<^verbatim>\<open>fix_axes\<close> updates in place.
\<close>

definition tc_axis :: "int \<Rightarrow> 'st Kernel \<Rightarrow> error + int" where
  "tc_axis i k = (case tensor_core_opts k of None \<Rightarrow> Inl AssertionError | Some t \<Rightarrow> py_index (axes t) i)"

fun tc_loop :: "'st ext \<Rightarrow> int \<Rightarrow> int \<Rightarrow> TensorCore list \<Rightarrow> int \<Rightarrow> ('st Kernel, bool) prog" where
  "tc_loop E use_tc opt_level [] ax = return False"
| "tc_loop E use_tc opt_level (tc # tcs) ax =
     bind (reading (\<lambda>k. mapE (\<lambda>r. create_tc_opts E k r tc ax opt_level) (reduceops k))) (\<lambda>tcos.
     bind (if all_same tcos then return () else raise AssertionError) (\<lambda>_.
     bind (reading (\<lambda>_. py_index tcos 0)) (\<lambda>t0.
     case t0 of
       None \<Rightarrow> tc_loop E use_tc opt_level tcs ax
     | Some tco \<Rightarrow>
         bind (modify (\<lambda>k. k\<lparr>tensor_core_opts := Some tco\<rparr>)) (\<lambda>_.
         bind (pad_loop E (axis_pads tco) ax) (\<lambda>(padded, ax').
         if \<not> padded then tc_loop E use_tc opt_level tcs ax'
         else
           bind (for_each (get_reduce_axes tc) (\<lambda>(dim, amt).
                   bind (reading (\<lambda>k. bindE (tc_axis 2 k) (\<lambda>a. bindE (first_reduce E k) (\<lambda>fr.
                           Inr (a - fr))))) (\<lambda>a.
                   apply_opt_nontc E (Opt UNROLL (Some a) (ArgInt amt)) False))) (\<lambda>_.
           bind (for_each (tc_program tc) (\<lambda>(kind, which).
                   bind (reading (tc_axis which)) (\<lambda>a.
                   apply_opt_nontc E (Opt (case kind of U \<Rightarrow> UPCAST | L \<Rightarrow> LOCAL) (Some a) (ArgInt 2))
                     False))) (\<lambda>_.
           bind (modify (\<lambda>k. k\<lparr>tensor_core := Some tc, use_tensor_cores := use_tc\<rparr>)) (\<lambda>_.
           return True))))))))"

definition apply_tc_opt :: "'st ext \<Rightarrow> int \<Rightarrow> int \<Rightarrow> int \<Rightarrow> int \<Rightarrow> ('st Kernel, bool) prog" where
  "apply_tc_opt E use_tc ax tc_select opt_level =
     bind (reading (\<lambda>k. if use_tc \<noteq> 0
                         then (case reduceop k of None \<Rightarrow> Inr False
                               | Some r \<Rightarrow> bindE (reduce_kind r) (\<lambda>kind. Inr (kind = ADD)))
                         else Inr False)) (\<lambda>c.
     if c then
       bind (reading (\<lambda>k. if tc_select = - 1 then Inr (tensor_cores (opts k))
                           else bindE (py_index (tensor_cores (opts k)) tc_select) (\<lambda>tc. Inr [tc])))
         (\<lambda>tcs. tc_loop E use_tc opt_level tcs ax)
     else return False)"

section \<open>\<^verbatim>\<open>apply_opt\<close>\<close>

definition opt_TC :: "'st ext \<Rightarrow> Opt \<Rightarrow> ('st Kernel, unit) prog" where
  "opt_TC E opt =
     bind (reading (\<lambda>k. Inr (applied_opts k = []))) (\<lambda>first.
     bind (check first TCMustBeFirst) (\<lambda>_.
     bind (reading (\<lambda>k. Inr (tensor_cores (opts k)))) (\<lambda>tcs.
     bind (check (USE_TC E = 2 \<or> length tcs > 0) MustHaveTC) (\<lambda>_.
     case axis opt of
       None \<Rightarrow> raise (KernelOptError TCNeedsAxis)
     | Some ax \<Rightarrow>
        (case arg opt of
           ArgTuple [tc_select, tc_opt] \<Rightarrow>
             bind (check (- 1 \<le> tc_select \<and> tc_select < int (length tcs)) TCBadSelect) (\<lambda>_.
             bind (check (0 \<le> tc_opt \<and> tc_opt \<le> 2) TCBadOpt) (\<lambda>_.
             bind (apply_tc_opt E (USE_TC E) ax tc_select tc_opt) (\<lambda>ok.
             bind (check ok NoTensorCore) (\<lambda>_.
             modify (\<lambda>k. k\<lparr>applied_opts := applied_opts k @ [opt]\<rparr>)))))
         | _ \<Rightarrow> raise (KernelOptError TCNeedsArgs))))))"

definition apply_opt :: "'st ext \<Rightarrow> Opt \<Rightarrow> bool \<Rightarrow> ('st Kernel, unit) prog" where
  "apply_opt E opt append_opt =
     bind (locals_check opt) (\<lambda>_.
     if op opt = TC then opt_TC E opt else apply_opt_rest E opt append_opt)"

section \<open>\<^verbatim>\<open>simplify_merge_adjacent\<close>\<close>

text \<open>
  A row is the shape and the strides of one tracker; \<open>ret\<close> is its list of merged
  (size, stride) pairs. \<open>can_merge\<close> is the test of the inner loop for one row at axis
  \<open>i\<close>:
  \<^verbatim>\<open>(sti is not None) and ((sti != 0 and last_st == si*sti) or (sti == 0 and last_st == 0))\<close>.
\<close>

type_synonym row = "sint list \<times> sint option list"

type_synonym ret = "(sint \<times> sint option) list"

definition can_merge :: "'st ext \<Rightarrow> int \<Rightarrow> row \<times> ret \<Rightarrow> error + bool" where
  "can_merge E i = (\<lambda>((s, st), ret).
     bindE (py_index s i) (\<lambda>si.
     bindE (py_index st i) (\<lambda>sti.
     bindE (py_index ret (- 1)) (\<lambda>(_, last_st).
     case sti of
       None \<Rightarrow> Inr False
     | Some t \<Rightarrow>
         bindE (sint_cond E Ne t (I 0)) (\<lambda>nz.
         bindE (if nz then bindE (sint_binop E Mul si t) (\<lambda>p. Inr (last_st = Some p))
                else Inr False) (\<lambda>first.
         Inr (first \<or> (t = I 0 \<and> last_st = Some (I 0)))))))))"

definition merge_row :: "'st ext \<Rightarrow> int \<Rightarrow> bool \<Rightarrow> row \<times> ret \<Rightarrow> error + ret" where
  "merge_row E i mergeable = (\<lambda>((s, st), ret).
     if mergeable then
       bindE (py_index ret (- 1)) (\<lambda>(sz, _).
       bindE (py_index s i) (\<lambda>si.
       bindE (sint_binop E Mul sz si) (\<lambda>sz'.
       bindE (py_index st i) (\<lambda>sti.
       py_update ret (- 1) (sz', sti)))))
     else
       bindE (py_index s i) (\<lambda>si.
       bindE (py_index st i) (\<lambda>sti.
       Inr (ret @ [(si, sti)]))))"

text \<open>
  One round of the loop \<^verbatim>\<open>for i in range(1, len(shapes[0]))\<close>. \<^verbatim>\<open>self.first_reduce\<close> is
  read only when every row can merge (\<^verbatim>\<open>and\<close> evaluates its right operand lazily).
\<close>

definition merge_step :: "'st ext \<Rightarrow> error + int \<Rightarrow> row list \<Rightarrow> int \<Rightarrow> ret list \<Rightarrow> error + ret list" where
  "merge_step E fr rows i rets =
     bindE (mapE (can_merge E i) (zip rows rets)) (\<lambda>cs.
     bindE (if list_all (\<lambda>c. c) cs then bindE fr (\<lambda>f. Inr (i \<noteq> f)) else Inr False) (\<lambda>mergeable.
     mapE (merge_row E i mergeable) (zip rows rets)))"

fun merge_loop :: "'st ext \<Rightarrow> error + int \<Rightarrow> row list \<Rightarrow> int list \<Rightarrow> ret list \<Rightarrow> error + ret list" where
  "merge_loop E fr rows [] rets = Inr rets"
| "merge_loop E fr rows (i # is) rets = bindE (merge_step E fr rows i rets) (merge_loop E fr rows is)"

text \<open>\<^verbatim>\<open>rets = [[(s[0], st[0])] for s,st in zip(shapes, strides)]\<close>, started at axis \<open>i\<close>.\<close>

definition init_rets :: "row list \<Rightarrow> int \<Rightarrow> error + ret list" where
  "init_rets rows i =
     mapE (\<lambda>(s, st). bindE (py_index s i) (\<lambda>si. bindE (py_index st i) (\<lambda>sti. Inr [(si, sti)]))) rows"

text \<open>The merged pairs of all rows: the part of the function before the reshapes.\<close>

definition merge_dims :: "'st ext \<Rightarrow> error + int \<Rightarrow> row list \<Rightarrow> error + ret list" where
  "merge_dims E fr rows =
     bindE (init_rets rows 0) (\<lambda>rets.
     bindE (py_index rows 0) (\<lambda>(s0, _).
     merge_loop E fr rows (py_range 1 (int (length s0))) rets))"

definition simplify_merge_adjacent :: "'st ext \<Rightarrow> ('st Kernel, unit) prog" where
  "simplify_merge_adjacent E =
     bind (reading (shape_len E)) (\<lambda>n.
     if n = 0 then return ()
     else
       bind (reading (\<lambda>k. Inr (map (\<lambda>x. (st_shape E x, st_real_strides E x)) (sts k)))) (\<lambda>rows.
       bind (reading (\<lambda>k. bindE (output_shape E k) (image_row E (bufs k)))) (\<lambda>extra.
       let rows' = (case extra of None \<Rightarrow> rows | Some r \<Rightarrow> rows @ [r]) in
       bind (reading (\<lambda>k. merge_dims E (first_reduce E k) rows')) (\<lambda>rets.
       bind (reading (\<lambda>k. Inr (zip [0..<length (sts k)] (take (length (sts k)) rets)))) (\<lambda>irets.
       for_each irets (\<lambda>(i, x).
         bind (reading (\<lambda>k. st_reshape E (sts k ! i) (map fst x))) (\<lambda>st'.
         modify (\<lambda>k. k\<lparr>sts := (sts k)[i := st']\<rparr>))))))))"

section \<open>A shape-tracker for worked examples\<close>

text \<open>
  The theorems below hold for every shape-tracker implementation that meets the contract
  they name. To run the model on concrete kernels, \<open>view\<close> is a single strided view: a
  list of (size, stride) pairs. Its reshape splits and merges axes of known size and keeps
  the strides; it is the identity on the view's own shape.
\<close>

type_synonym view = "(sint \<times> int) list"

fun new_strides :: "(int \<times> int) list \<Rightarrow> int list \<Rightarrow> int list option" where
  "new_strides old [] = (if old = [] then Some [] else None)"
| "new_strides old (m # ms) =
     (if m = 1 then map_option (Cons 0) (new_strides old ms)
      else case old of
        [] \<Rightarrow> None
      | (n, t) # rest \<Rightarrow>
          if n = m then map_option (Cons t) (new_strides rest ms)
          else if 0 < m \<and> m < n \<and> n mod m = 0
            then map_option (Cons (t * (n div m))) (new_strides ((n div m, t) # rest) ms)
          else (case rest of
                  [] \<Rightarrow> None
                | (n2, t2) # rest' \<Rightarrow>
                    if t = n2 * t2 then new_strides ((n * n2, t2) # rest') (m # ms) else None))"

definition the_ints :: "sint list \<Rightarrow> int list option" where
  "the_ints xs = (if list_all (\<lambda>x. case x of I _ \<Rightarrow> True | Sym _ \<Rightarrow> False) xs
                  then Some (map (\<lambda>x. case x of I n \<Rightarrow> n | Sym _ \<Rightarrow> 0) xs) else None)"

definition view_reshape :: "view \<Rightarrow> sint list \<Rightarrow> error + view" where
  "view_reshape v new =
     (if new = map fst v then Inr v
      else case (the_ints (map fst v), the_ints new) of
        (Some old_sizes, Some new_sizes) \<Rightarrow>
          (case new_strides (filter (\<lambda>(n, t). n \<noteq> 1) (zip old_sizes (map snd v))) new_sizes of
             Some ts \<Rightarrow> Inr (zip new ts)
           | None \<Rightarrow> Inl ValueError)
      | _ \<Rightarrow> Inl ValueError)"

definition view_permute :: "view \<Rightarrow> int list \<Rightarrow> error + view" where
  "view_permute v p =
     (if sort p = map int [0..<length v] then Inr (map (\<lambda>i. v ! nat i) p) else Inl AssertionError)"

definition view_pad :: "view \<Rightarrow> (sint \<times> sint) list \<Rightarrow> error + view" where
  "view_pad v ps =
     (if length ps = length v then
        mapE (\<lambda>((s, t), (b, e)). case (s, b, e) of
                 (I n, I x, I y) \<Rightarrow> Inr (I (x + n + y), t)
               | _ \<Rightarrow> Inl ValueError) (zip v ps)
      else Inl ValueError)"

definition VE :: "view ext" where
  "VE = \<lparr>st_shape = map fst,
         st_real_strides = map (\<lambda>(s, t). Some (I t)),
         st_reshape = view_reshape,
         st_permute = view_permute,
         st_pad = view_pad,
         resolve_ne = (\<lambda>x y. x \<noteq> y),
         sym_cond = (\<lambda>c x y. Inl ValueError),
         sym_binop = (\<lambda>b x y. Inl TypeError),
         can_pad = (\<lambda>r. True),
         USE_TC = 1,
         image_row = (\<lambda>bs os. Inr None)\<rparr>"

subsection \<open>Example kernels\<close>

definition f32 :: DType where
  "f32 = DType ''float'' 4"

definition ex_renderer :: Renderer where
  "ex_renderer = \<lparr>device = ''GPU'', has_local = True, has_shared = True, shared_max = 32768,
                   tensor_cores = []\<rparr>"

text \<open>A freshly constructed kernel over the given trackers and reduce ops.\<close>

definition ex_kernel :: "view list \<Rightarrow> UOp list \<Rightarrow> nat \<Rightarrow> view Kernel" where
  "ex_kernel vs rs fbi =
     \<lparr>ast = UOp SINK f32 [] NoArg, opts = ex_renderer, reduceops = rs, vars = [], bufs = [],
      full_buf_index = fbi, sts = vs, applied_opts = [], group_for_reduces = 0, upcasted = 0,
      local_dims = 0, tensor_core = None, tensor_core_opts = None, use_tensor_cores = 0,
      dont_use_locals = False\<rparr>"

text \<open>An elementwise kernel of shape (4, n) whose second axis has a symbolic size.\<close>

definition ex_symbolic :: "view Kernel" where
  "ex_symbolic =
     ex_kernel [[(I 4, 1), (Sym (UOp DEFINE_VAR f32 [] (OtherArg ''n'')), 4)]] [] 0"

text \<open>An elementwise kernel of shape (4, 8).\<close>

definition ex_elementwise :: "view Kernel" where
  "ex_elementwise = ex_kernel [[(I 4, 8), (I 8, 1)], [(I 4, 8), (I 8, 1)]] [] 0"

text \<open>
  A sum over the second axis of a (4, 8) buffer: the output and the input buffer, then the
  two trackers of the reduce op.
\<close>

definition ex_red :: UOp where
  "ex_red = UOp REDUCE_AXIS f32 [] (ReduceArg ADD [1])"

definition ex_reduce :: "view Kernel" where
  "ex_reduce =
     ex_kernel [[(I 4, 1), (I 1, 0)], [(I 4, 8), (I 8, 1)], [(I 4, 1), (I 1, 0)], [(I 4, 8), (I 8, 1)]]
       [ex_red] 1"

text \<open>The same sum on a device with 16 bytes of shared memory, and after \<^verbatim>\<open>NOLOCALS\<close>.\<close>

definition ex_tight :: "view Kernel" where
  "ex_tight = ex_reduce\<lparr>opts := ex_renderer\<lparr>shared_max := 16\<rparr>\<rparr>"

definition ex_nolocals :: "view Kernel" where
  "ex_nolocals = ex_tight\<lparr>dont_use_locals := True\<rparr>"

section \<open>Validation predicates\<close>

text \<open>
  The test \<^verbatim>\<open>self.global_dims <= axis < self.global_dims+len(tc.get_local_axes())\<close> of the
  \<^verbatim>\<open>UPCAST\<close> branch, for a kernel whose \<^verbatim>\<open>first_reduce\<close> is \<open>fr\<close>.
\<close>

definition tc_local_axis :: "'st Kernel \<Rightarrow> int \<Rightarrow> int \<Rightarrow> bool" where
  "tc_local_axis k fr ax =
     (case tensor_core k of
        None \<Rightarrow> False
      | Some tc \<Rightarrow> fr - local_dims k \<le> ax \<and> ax < fr - local_dims k + int (length (get_local_axes tc)))"

text \<open>
  Every check that \<^verbatim>\<open>apply_opt\<close> makes of an \<^verbatim>\<open>UPCAST\<close> before it touches the state, for
  an axis \<open>ax\<close> of size \<open>m\<close>, the amount \<open>n\<close> and the shared-memory need \<open>sz\<close>: the amount is
  not 1 and divides the axis; the shared-memory check, which is made when the kernel has a
  reduce op and \<^verbatim>\<open>group_for_reduces\<close> is not 0; the axis is before \<^verbatim>\<open>first_reduce\<close> and is
  not a tensor-core local axis; the amount is at most 16 unless the device is "DSP".
\<close>

definition upcast_valid :: "'st Kernel \<Rightarrow> int \<Rightarrow> int \<Rightarrow> int \<Rightarrow> int \<Rightarrow> int \<Rightarrow> bool" where
  "upcast_valid k fr ax m n sz \<longleftrightarrow>
     n \<noteq> 1 \<and> m mod n = 0
     \<and> (reduceop k \<noteq> None \<and> group_for_reduces k \<noteq> 0 \<longrightarrow> sz \<le> shared_max (opts k))
     \<and> ax < fr \<and> \<not> tc_local_axis k fr ax
     \<and> (device (opts k) = ''DSP'' \<or> n \<le> 16)"

section \<open>Frame conditions\<close>

text \<open>
  \<open>keeps R m\<close>: whatever the outcome of the program \<open>m\<close>, the state it leaves is related by
  \<open>R\<close> to the state it started from. \<open>ensures Q m\<close> also speaks of the outcome.
\<close>

definition keeps :: "('s \<Rightarrow> 's \<Rightarrow> bool) \<Rightarrow> ('s, 'a) prog \<Rightarrow> bool" where
  "keeps R m \<longleftrightarrow> (\<forall>k r k'. m k = (r, k') \<longrightarrow> R k k')"

definition ensures :: "('s \<Rightarrow> error + 'a \<Rightarrow> 's \<Rightarrow> bool) \<Rightarrow> ('s, 'a) prog \<Rightarrow> bool" where
  "ensures Q m \<longleftrightarrow> (\<forall>k r k'. m k = (r, k') \<longrightarrow> Q k r k')"

text \<open>The tensor core and the recorded opts are as before.\<close>

definition same_tc :: "'st Kernel \<Rightarrow> 'st Kernel \<Rightarrow> bool" where
  "same_tc k k' \<longleftrightarrow> tensor_core k' = tensor_core k \<and> applied_opts k' = applied_opts k"

text \<open>The tensor core is as before, and at most the opt was recorded.\<close>

definition rec_tc :: "Opt \<Rightarrow> 'st Kernel \<Rightarrow> 'st Kernel \<Rightarrow> bool" where
  "rec_tc opt k k' \<longleftrightarrow> tensor_core k' = tensor_core k
     \<and> (applied_opts k' = applied_opts k \<or> applied_opts k' = applied_opts k @ [opt])"

text \<open>
  What \<^verbatim>\<open>_apply_tc_opt\<close> leaves: the recorded opts as before, and a tensor core that is set
  when it returns \<^verbatim>\<open>True\<close> and as before otherwise.
\<close>

definition tc_post :: "'st Kernel \<Rightarrow> error + bool \<Rightarrow> 'st Kernel \<Rightarrow> bool" where
  "tc_post k r k' \<longleftrightarrow> applied_opts k' = applied_opts k
     \<and> (if r = Inr True then tensor_core k' \<noteq> None else tensor_core k' = tensor_core k)"

text \<open>
  The kernel states that calls of \<^verbatim>\<open>apply_opt\<close> lead to from \<open>k0\<close>. A call that raises may
  leave the state changed, so the state after a failed call counts as well; the states
  reached by successful calls alone are among these.
\<close>

inductive reachable :: "'st ext \<Rightarrow> 'st Kernel \<Rightarrow> 'st Kernel \<Rightarrow> bool" for E k0 where
  start: "reachable E k0 k0"
| call: "reachable E k0 k \<Longrightarrow> apply_opt E opt append_opt k = (r, k') \<Longrightarrow> reachable E k0 k'"

named_theorems frame

subsection \<open>Matrix products\<close>

text \<open>
  The product of an (M, K) and a (K, N) matrix: the store, the two loads, and the two
  trackers of the reduce op, on a device with one tensor core of the given dims whose
  program makes the N axis local and upcasts the M axis.
\<close>

definition ex_load :: "string \<Rightarrow> UOp" where
  "ex_load n = UOp LOAD f32 [UOp DEFINE_GLOBAL f32 [] (OtherArg n)] NoArg"

definition ex_dot :: UOp where
  "ex_dot = UOp REDUCE_AXIS f32 [UOp MUL f32 [ex_load ''a'', ex_load ''b''] NoArg] (ReduceArg ADD [2])"

definition ex_store :: UOp where
  "ex_store = UOp STORE f32 [UOp DEFINE_GLOBAL f32 [] (OtherArg ''c''), ex_dot] NoArg"

definition ex_tc :: "int list \<Rightarrow> TensorCore" where
  "ex_tc ds = \<lparr>dims = ds, dtype_in = f32, dtype_out = f32, tc_program = [(L, 0), (U, 1)],
               get_reduce_axes = [(0, 2)], get_local_axes = [(0, 2)]\<rparr>"

definition ex_matmul :: "int \<Rightarrow> int \<Rightarrow> int \<Rightarrow> int list \<Rightarrow> view Kernel" where
  "ex_matmul M N K ds =
     (ex_kernel [[(I M, N), (I N, 1), (I 1, 0)], [(I M, K), (I N, 0), (I K, 1)],
                 [(I M, 0), (I N, 1), (I K, N)], [(I M, N), (I N, 1), (I 1, 0)],
                 [(I M, N * K), (I N, K), (I K, 1)]] [ex_dot] 1)
     \<lparr>ast := UOp SINK f32 [ex_store] NoArg, bufs := [ex_store, ex_load ''a'', ex_load ''b''],
      opts := ex_renderer\<lparr>tensor_cores := [ex_tc ds]\<rparr>\<rparr>"

text \<open>The (4, 8) by (8, 4) product after the tensor core of dims (2, 2, 2) was applied.\<close>

definition ex_matmul_tc :: "view Kernel" where
  "ex_matmul_tc =
     (ex_matmul 4 4 8 [2, 2, 2])
     \<lparr>sts := [[(I 2, 8), (I 2, 2), (I 2, 1), (I 1, 0), (I 1, 0), (I 2, 4)],
              [(I 2, 16), (I 2, 0), (I 2, 0), (I 4, 2), (I 2, 1), (I 2, 8)],
              [(I 2, 0), (I 2, 2), (I 2, 1), (I 4, 8), (I 2, 4), (I 2, 0)],
              [(I 2, 8), (I 2, 2), (I 2, 1), (I 1, 0), (I 1, 0), (I 2, 4)],
              [(I 2, 64), (I 2, 16), (I 2, 8), (I 4, 2), (I 2, 1), (I 2, 32)]],
      applied_opts := [Opt TC (Some 0) (ArgTuple [0, 0])], upcasted := 2, local_dims := 1,
      tensor_core := Some (ex_tc [2, 2, 2]),
      tensor_core_opts := Some \<lparr>axes = [1, 0, 2], axes_exist = [True, True], axis_pads = []\<rparr>,
      use_tensor_cores := 1\<rparr>"

text \<open>
  The (4, 3) by (3, 5) product after a failed attempt to apply a tensor core of dims
  (4, 2, 16): the N axis of every tracker is padded from 5 to 8, and tensor-core options
  are stored.
\<close>

definition ex_matmul_failed :: "view Kernel" where
  "ex_matmul_failed =
     (ex_matmul 4 5 3 [4, 2, 16])
     \<lparr>sts := [[(I 4, 5), (I 8, 1), (I 1, 0)], [(I 4, 3), (I 8, 0), (I 3, 1)],
              [(I 4, 0), (I 8, 1), (I 3, 5)], [(I 4, 5), (I 8, 1), (I 1, 0)],
              [(I 4, 15), (I 8, 3), (I 3, 1)]],
      tensor_core_opts := Some \<lparr>axes = [1, 0, 2], axes_exist = [True, True],
                                 axis_pads = [(1, 4), (2, 16)]\<rparr>\<rparr>"

text \<open>Two trackers that disagree on the size of their one axis.\<close>

definition ex_uneven :: "view Kernel" where
  "ex_uneven = ex_kernel [[(I 6, 1)], [(I 2, 1)]] [] 0"

section \<open>Removing axes of size one\<close>

text \<open>
  What \<^verbatim>\<open>simplify_ones\<close> asks of the shape-tracker: reshaping a tracker to its own shape
  gives the tracker back, and a reshape that succeeds yields a tracker of the requested shape.
\<close>

definition reshape_contract :: "'st ext \<Rightarrow> bool" where
  "reshape_contract E \<longleftrightarrow>
     (\<forall>st. st_reshape E st (st_shape E st) = Inr st)
     \<and> (\<forall>st s st'. st_reshape E st s = Inr st' \<longrightarrow> st_shape E st' = s)"

text \<open>
  The comprehension of \<^verbatim>\<open>simplify_ones\<close> on its own: every tracker reshaped to its shape
  without the axes where the full shape is 1.
\<close>

definition ones_dropped :: "'st ext \<Rightarrow> sint list \<Rightarrow> 'st list \<Rightarrow> error + 'st list" where
  "ones_dropped E fs = mapE (\<lambda>st. bindE (drop_ones (map (\<lambda>s. s = I 1) fs) 0 (st_shape E st)) (st_reshape E st))"

text \<open>The entries of \<open>xs\<close> at the positions where \<open>fs\<close> is not 1.\<close>

abbreviation kept :: "sint list \<Rightarrow> sint list \<Rightarrow> sint list" where
  "kept fs xs \<equiv> map snd (filter (\<lambda>p. \<not> fst p) (zip (map (\<lambda>s. s = I 1) fs) xs))"

text \<open>A sum over the last axis of a (4, 1, 8) buffer, and the same kernel without the unit axis.\<close>

definition ex_ones :: "view Kernel" where
  "ex_ones =
     ex_kernel [[(I 4, 1), (I 1, 0), (I 1, 0)], [(I 4, 8), (I 1, 0), (I 8, 1)]]
       [UOp REDUCE_AXIS f32 [] (ReduceArg ADD [2])] 1"

definition ex_ones_dropped :: "view Kernel" where
  "ex_ones_dropped = ex_ones\<lparr>sts := [[(I 4, 1), (I 1, 0)], [(I 4, 8), (I 8, 1)]]\<rparr>"

section \<open>Merging on either side of the reduce boundary\<close>

text \<open>
  The loop of \<^verbatim>\<open>simplify_merge_adjacent\<close> run on the axes \<open>lo\<close> to \<open>hi - 1\<close> only, from the
  pairs of axis \<open>lo\<close>.
\<close>

definition merge_range :: "'st ext \<Rightarrow> error + int \<Rightarrow> row list \<Rightarrow> int \<Rightarrow> int \<Rightarrow> error + ret list" where
  "merge_range E fr rows lo hi = bindE (init_rets rows lo) (merge_loop E fr rows (py_range (lo + 1) hi))"

text \<open>Each row of a result, with the pairs of \<open>pre\<close> in front.\<close>

definition prefixed :: "ret list \<Rightarrow> error + ret list \<Rightarrow> error + ret list" where
  "prefixed pre r = bindE r (\<lambda>cur. Inr (map2 (@) pre cur))"

text \<open>Two contiguous trackers of shape (2, 3, 4): every pair of adjacent axes can merge.\<close>

definition ex_rows :: "row list" where
  "ex_rows = [([I 2, I 3, I 4], [Some (I 12), Some (I 4), Some (I 1)]),
              ([I 2, I 3, I 4], [Some (I 12), Some (I 4), Some (I 1)])]"

section \<open>Proofs\<close>

subsection \<open>Running a program on a state\<close>

lemma bind_apply:
  "bind m f k = (case m k of (Inl e, k') \<Rightarrow> (Inl e, k') | (Inr x, k') \<Rightarrow> f x k')"
  by (simp add: bind_def)

lemma reading_apply: "reading g k = (g k, k)"
  by (simp add: reading_def)

lemma modify_apply: "modify g k = (Inr (), g k)"
  by (simp add: modify_def)

lemma raise_apply: "raise e k = (Inl e, k)"
  by (simp add: raise_def)

lemma return_apply: "return x k = (Inr x, k)"
  by (simp add: return_def)

lemma check_apply: "check c m k = (if c then (Inr (), k) else (Inl (KernelOptError m), k))"
  by (simp add: check_def return_def raise_def)

lemmas prog_simps = bind_apply reading_apply modify_apply raise_apply return_apply check_apply

lemma bindE_simps [simp]: "bindE (Inl e) f = Inl e" "bindE (Inr x) f = f x"
  by (simp_all add: bindE_def)

lemma py_slice_same [simp]: "py_slice xs a a = []"
  by (simp add: py_slice_def Let_def)

lemma count_True_Nil [simp]: "count_True [] = 0"
  by (simp add: count_True_def)

subsection \<open>An amount of 1 or a symbolic amount\<close>

text \<open>
  Claim C10. For an opt of kind UPCAST, UNROLL, LOCAL, GROUP, GROUPTOP or PADTO with an
  int arg, on a kernel whose resolved axis and full shape are defined: when the amount
  \<^verbatim>\<open>arg if arg != 0 else full_shape[axis]\<close> is 1 (the arg is 1, or it is 0 on an axis of
  size 1) or symbolic, \<^verbatim>\<open>apply_opt\<close> raises \<^verbatim>\<open>KernelOptError\<close> and leaves the kernel as it
  was.
\<close>

theorem apply_opt_meaningless_amount:
  assumes "op opt \<in> {UPCAST, UNROLL, LOCAL, GROUP, GROUPTOP, PADTO}"
    and "real_axis E opt k = Inr ax"
    and "full_shape E k = Inr fs"
    and "arg opt = ArgInt a"
    and "amount_value E a ax k = Inr x"
    and "x = I 1 \<or> x = Sym u"
  shows "\<exists>m. apply_opt E opt append_opt k = (Inl (KernelOptError m), k)"
  using assms
  by (auto simp add: apply_opt_def locals_check_def apply_opt_rest_def opt_amount_def prog_simps)

theorem apply_opt_meaningless_amount_witness:
  "real_axis VE (Opt UPCAST (Some 1) (ArgInt 0)) ex_symbolic = Inr 1
   \<and> amount_value VE 0 1 ex_symbolic = Inr (Sym (UOp DEFINE_VAR f32 [] (OtherArg ''n'')))
   \<and> (\<exists>m. apply_opt VE (Opt UPCAST (Some 1) (ArgInt 0)) True ex_symbolic
            = (Inl (KernelOptError m), ex_symbolic))
   \<and> amount_value VE 1 0 ex_elementwise = Inr (I 1)
   \<and> (\<exists>m. apply_opt VE (Opt LOCAL (Some 0) (ArgInt 1)) True ex_elementwise
            = (Inl (KernelOptError m), ex_elementwise))"
proof -
  let ?v = "UOp DEFINE_VAR f32 [] (OtherArg ''n'')"
  have r: "real_axis VE (Opt UPCAST (Some 1) (ArgInt 0)) ex_symbolic = Inr 1"
    by (simp add: real_axis_def)
  have f: "full_shape VE ex_symbolic = Inr [I 4, Sym ?v]"
    by (simp add: full_shape_def ex_symbolic_def ex_kernel_def VE_def)
  have a: "amount_value VE 0 1 ex_symbolic = Inr (Sym ?v)"
    by (simp add: amount_value_def f py_index_def py_pos_def)
  have r': "real_axis VE (Opt LOCAL (Some 0) (ArgInt 1)) ex_elementwise = Inr 0"
    by (simp add: real_axis_def)
  have f': "full_shape VE ex_elementwise = Inr [I 4, I 8]"
    by (simp add: full_shape_def ex_elementwise_def ex_kernel_def VE_def)
  have a': "amount_value VE 1 0 ex_elementwise = Inr (I 1)"
    by (simp add: amount_value_def)
  have "\<exists>m. apply_opt VE (Opt UPCAST (Some 1) (ArgInt 0)) True ex_symbolic
            = (Inl (KernelOptError m), ex_symbolic)"
    by (rule apply_opt_meaningless_amount [OF _ r f _ a]) simp_all
  moreover have "\<exists>m. apply_opt VE (Opt LOCAL (Some 0) (ArgInt 1)) True ex_elementwise
            = (Inl (KernelOptError m), ex_elementwise)"
    by (rule apply_opt_meaningless_amount [OF _ r' f' _ a']) simp_all
  ultimately show ?thesis using r a a' by simp
qed

subsection \<open>The recorded opt\<close>







subsection \<open>An arg of 0\<close>









subsection \<open>\<^verbatim>\<open>NOLOCALS\<close>\<close>

lemma simplify_ones_locals:
  assumes "simplify_ones E k = (r, k')"
  shows "dont_use_locals k' = dont_use_locals k" and "local_dims k = 0 \<Longrightarrow> local_dims k' = 0"
  using assms
  by (auto simp add: simplify_ones_def prog_simps Let_def reshape_and_permute_def
      split: sum.splits if_splits)

lemma finish_opt_locals:
  assumes "finish_opt E opt append_opt ax k = (r, k')"
  shows "dont_use_locals k' = dont_use_locals k" and "local_dims k = 0 \<Longrightarrow> local_dims k' = 0"
  using assms
  by (auto simp add: finish_opt_def prog_simps split: sum.splits if_splits prod.splits
      dest: simplify_ones_locals)

lemma local_refused:
  "dont_use_locals k \<Longrightarrow>
     apply_opt E (Opt LOCAL ax a) append_opt k = (Inl (KernelOptError NotUsingLocals), k)"
  by (simp add: apply_opt_def locals_check_def prog_simps)

text \<open>
  Claim C5. After a successful \<^verbatim>\<open>apply_opt(NOLOCALS)\<close> the kernel has
  \<^verbatim>\<open>dont_use_locals == True\<close> and \<^verbatim>\<open>local_dims == 0\<close>, and every attempt to apply a \<^verbatim>\<open>LOCAL\<close>
  opt to it raises \<^verbatim>\<open>KernelOptError\<close> ("not using locals") and leaves the kernel as it
  was, so that the same holds for the next attempt.
\<close>

theorem local_after_nolocals:
  assumes "apply_opt E (Opt NOLOCALS ax a) append_opt k = (Inr (), k')"
  shows "dont_use_locals k' \<and> local_dims k' = 0 \<and>
    (\<forall>ax' a' append_opt'.
       apply_opt E (Opt LOCAL ax' a') append_opt' k' = (Inl (KernelOptError NotUsingLocals), k'))"
proof -
  from assms obtain k1 axx where f: "finish_opt E (Opt NOLOCALS ax a) append_opt axx k1 = (Inr (), k')"
    and d: "dont_use_locals k1" and l: "local_dims k1 = 0"
    by (auto simp add: apply_opt_def locals_check_def apply_opt_rest_def opt_branch_def
        opt_NOLOCALS_def opt_amount_def smem_check_def smem_applies_def prog_simps
        split: sum.splits if_splits prod.splits OptArg.splits)
  from finish_opt_locals [OF f] d l have "dont_use_locals k'" "local_dims k' = 0"
    by auto
  then show ?thesis
    by (simp add: local_refused)
qed

theorem local_after_nolocals_witness:
  "apply_opt VE (Opt NOLOCALS None ArgNone) True ex_reduce
     = (Inr (), ex_reduce\<lparr>applied_opts := [Opt NOLOCALS None ArgNone], dont_use_locals := True\<rparr>)
   \<and> apply_opt VE (Opt LOCAL (Some 0) (ArgInt 4)) True
        (ex_reduce\<lparr>applied_opts := [Opt NOLOCALS None ArgNone], dont_use_locals := True\<rparr>)
     = (Inl (KernelOptError NotUsingLocals),
        ex_reduce\<lparr>applied_opts := [Opt NOLOCALS None ArgNone], dont_use_locals := True\<rparr>)"
proof -
  have n: "apply_opt VE (Opt NOLOCALS None ArgNone) True ex_reduce
     = (Inr (), ex_reduce\<lparr>applied_opts := [Opt NOLOCALS None ArgNone], dont_use_locals := True\<rparr>)"
    by code_simp
  from local_after_nolocals [OF n] n show ?thesis by simp
qed

subsection \<open>The shared-memory budget\<close>

text \<open>
  Claim C3, as stated, fails: the source has no \<^verbatim>\<open>SharedMemoryExceeded\<close>, and the
  shared-memory check is not the first check. On a kernel that no longer uses locals a
  \<^verbatim>\<open>GROUP\<close> whose budget of 32 bytes exceeds the 16 available is refused with "not using
  locals", an error that carries no byte counts.
\<close>

theorem group_budget_counterexample:
  "smem_sz VE ex_red (ArgInt 8) ex_nolocals = Inr (I 32)
   \<and> shared_max (opts ex_nolocals) = 16
   \<and> apply_opt VE (Opt GROUP (Some 0) (ArgInt 8)) True ex_nolocals
      = (Inl (KernelOptError NotUsingLocals), ex_nolocals)"
  by code_simp

text \<open>
  Claim C3, amended. On a kernel with a reduce op that uses locals, for a \<^verbatim>\<open>GROUP\<close> or
  \<^verbatim>\<open>GROUPTOP\<close> with a valid axis and an int amount \<open>n\<close> other than 1 that divides the axis,
  where the budget \<^verbatim>\<open>amt*acc_sz*upcast_sz*local_sz\<close> is the int \<open>sz\<close>: when \<open>sz\<close> exceeds
  \<^verbatim>\<open>shared_max\<close>, \<^verbatim>\<open>apply_opt\<close> raises \<^verbatim>\<open>KernelOptError\<close> with the message that carries the
  needed and the maximum byte counts, and the state is unchanged; when \<open>sz\<close> is within
  \<^verbatim>\<open>shared_max\<close>, the check passes and \<^verbatim>\<open>apply_opt\<close> goes on to the branch of the opt.
\<close>

theorem group_budget:
  assumes "o1 \<in> {GROUP, GROUPTOP}"
    and "reduceop k = Some r"
    and "\<not> dont_use_locals k"
    and "real_axis E (Opt o1 x (ArgInt a)) k = Inr ax"
    and "full_shape E k = Inr fs"
    and "ax < int (length fs)"
    and "amount_value E a ax k = Inr (I n)"
    and "n \<noteq> 1"
    and "py_index fs ax = Inr s"
    and "sint_binop E Mod s (I n) = Inr (I 0)"
    and "smem_sz E r (ArgInt n) k = Inr (I sz)"
  shows "(shared_max (opts k) < sz \<longrightarrow>
           apply_opt E (Opt o1 x (ArgInt a)) append_opt k
             = (Inl (KernelOptError (ExceedsSharedMem (I sz) (shared_max (opts k)))), k))
       \<and> (sz \<le> shared_max (opts k) \<longrightarrow>
           smem_check E (Opt o1 x (ArgInt a)) (ArgInt n) k = (Inr (), k)
           \<and> apply_opt E (Opt o1 x (ArgInt a)) append_opt k
             = bind (opt_branch E (Opt o1 x (ArgInt a)) ax (ArgInt n))
                 (\<lambda>_. finish_opt E (Opt o1 x (ArgInt a)) append_opt ax) k)"
proof -
  have am: "opt_amount E (Opt o1 x (ArgInt a)) ax k = (Inr (ArgInt n), k)"
    using assms by (auto simp add: opt_amount_def prog_simps)
  have ap: "smem_applies (Opt o1 x (ArgInt a)) k"
    using assms(1,2) by (auto simp add: smem_applies_def)
  have sc: "smem_check E (Opt o1 x (ArgInt a)) (ArgInt n) k
      = (if sz \<le> shared_max (opts k) then (Inr (), k)
         else (Inl (KernelOptError (ExceedsSharedMem (I sz) (shared_max (opts k)))), k))"
    using ap assms(2,11) by (simp add: smem_check_def prog_simps sint_cond_def)
  have "apply_opt E (Opt o1 x (ArgInt a)) append_opt k
      = (if sz \<le> shared_max (opts k)
         then bind (opt_branch E (Opt o1 x (ArgInt a)) ax (ArgInt n))
                 (\<lambda>_. finish_opt E (Opt o1 x (ArgInt a)) append_opt ax) k
         else (Inl (KernelOptError (ExceedsSharedMem (I sz) (shared_max (opts k)))), k))"
    using assms(1,3,4,5,6) am sc
    by (auto simp add: apply_opt_def locals_check_def apply_opt_rest_def prog_simps
        split: sum.splits prod.splits)
  with sc show ?thesis by simp
qed

theorem group_budget_witness:
  "smem_sz VE ex_red (ArgInt 8) ex_tight = Inr (I 32)
   \<and> apply_opt VE (Opt GROUP (Some 0) (ArgInt 8)) True ex_tight
      = (Inl (KernelOptError (ExceedsSharedMem (I 32) 16)), ex_tight)
   \<and> smem_sz VE ex_red (ArgInt 4) ex_tight = Inr (I 16)
   \<and> smem_check VE (Opt GROUPTOP (Some 0) (ArgInt 4)) (ArgInt 4) ex_tight = (Inr (), ex_tight)
   \<and> fst (apply_opt VE (Opt GROUPTOP (Some 0) (ArgInt 4)) True ex_tight) = Inr ()"
proof -
  have r: "reduceop ex_tight = Some ex_red" "\<not> dont_use_locals ex_tight"
    "full_shape VE ex_tight = Inr [I 4, I 8]" "(1 :: int) < int (length [I 4, I 8 :: sint])"
    "py_index [I 4, I 8 :: sint] 1 = Inr (I 8)" "shared_max (opts ex_tight) = 16"
    by code_simp+
  have g8: "real_axis VE (Opt GROUP (Some 0) (ArgInt 8)) ex_tight = Inr 1"
    "amount_value VE 8 1 ex_tight = Inr (I 8)" "sint_binop VE Mod (I 8) (I 8) = Inr (I 0)"
    "smem_sz VE ex_red (ArgInt 8) ex_tight = Inr (I 32)"
    by code_simp+
  have g4: "real_axis VE (Opt GROUPTOP (Some 0) (ArgInt 4)) ex_tight = Inr 1"
    "amount_value VE 4 1 ex_tight = Inr (I 4)" "sint_binop VE Mod (I 8) (I 4) = Inr (I 0)"
    "smem_sz VE ex_red (ArgInt 4) ex_tight = Inr (I 16)"
    by code_simp+
  have ok: "fst (apply_opt VE (Opt GROUPTOP (Some 0) (ArgInt 4)) True ex_tight) = Inr ()"
    by code_simp
  from group_budget [OF _ r(1,2) g8(1) r(3,4) g8(2) _ r(5) g8(3,4), of True]
    group_budget [OF _ r(1,2) g4(1) r(3,4) g4(2) _ r(5) g4(3,4), of True]
  show ?thesis using r(6) g8(4) g4(4) ok by simp
qed

subsection \<open>Validation of \<^verbatim>\<open>UPCAST\<close>\<close>

text \<open>
  Claim C2, as stated, fails: an \<^verbatim>\<open>UPCAST\<close> by 1 meets every precondition the claim lists
  (the axis is before \<^verbatim>\<open>first_reduce\<close>, no tensor core is set, 1 is at most 16 and divides
  4) and is refused.
\<close>

theorem upcast_counterexample:
  "first_reduce VE ex_elementwise = Inr 2 \<and> tensor_core ex_elementwise = None
   \<and> full_shape VE ex_elementwise = Inr [I 4, I 8] \<and> (4 :: int) mod 1 = 0 \<and> (1 :: int) \<le> 16
   \<and> apply_opt VE (Opt UPCAST (Some 0) (ArgInt 1)) True ex_elementwise
      = (Inl (KernelOptError MeaninglessAmt), ex_elementwise)"
  by code_simp

text \<open>
  Claim C2, amended. For an \<^verbatim>\<open>UPCAST\<close> of an axis of int size \<open>m\<close> with int arg \<open>a\<close>, the
  amount \<open>n\<close> being \<open>a\<close>, or \<open>m\<close> when \<open>a\<close> is 0, and not 0: \<^verbatim>\<open>apply_opt\<close> passes every check
  and goes on to \<^verbatim>\<open>shift_to\<close> and \<^verbatim>\<open>upcast\<close> exactly when \<open>upcast_valid\<close> holds, that is when
  \<open>n\<close> is not 1 and divides \<open>m\<close> (a size-1 axis gets no exemption), the shared-memory check
  passes where it is made, the axis is before \<^verbatim>\<open>first_reduce\<close> and not a tensor-core local
  axis, and \<open>n\<close> is at most 16 or the device is "DSP"; otherwise it raises
  \<^verbatim>\<open>KernelOptError\<close> and leaves the state unchanged.
\<close>

theorem upcast_validation:
  assumes fs: "full_shape E k = Inr fs"
    and fr: "first_reduce E k = Inr fr"
    and m: "py_index fs ax = Inr (I m)"
    and n: "n = (if a = 0 then m else a)" "n \<noteq> 0"
    and sz: "\<And>r. reduceop k = Some r \<Longrightarrow> group_for_reduces k \<noteq> 0 \<Longrightarrow>
               smem_sz E r (ArgInt n) k = Inr (I sz)"
  shows "if upcast_valid k fr ax m n sz
         then apply_opt E (Opt UPCAST (Some ax) (ArgInt a)) append_opt k
              = bind (shift_to E ax n False None) (\<lambda>_. bind (upcast E) (\<lambda>_.
                  finish_opt E (Opt UPCAST (Some ax) (ArgInt a)) append_opt ax)) k
         else \<exists>msg. apply_opt E (Opt UPCAST (Some ax) (ArgInt a)) append_opt k
                     = (Inl (KernelOptError msg), k)"
proof -
  let ?opt = "Opt UPCAST (Some ax) (ArgInt a)"
  have len: "ax < int (length fs)"
    using m by (auto simp add: py_index_def py_pos_def split: if_splits)
  have av: "amount_value E a ax k = Inr (I n)"
    using fs m n by (simp add: amount_value_def)
  have am: "opt_amount E ?opt ax k
      = (if n \<noteq> 1 \<and> m mod n = 0 then (Inr (ArgInt n), k)
         else (Inl (KernelOptError (if n = 1 then MeaninglessAmt else InvalidShift)), k))"
    using av fs m n(2) by (simp add: opt_amount_def prog_simps sint_binop_def)
  have sc: "smem_check E ?opt (ArgInt n) k
      = (if reduceop k \<noteq> None \<and> group_for_reduces k \<noteq> 0 \<longrightarrow> sz \<le> shared_max (opts k)
         then (Inr (), k)
         else (Inl (KernelOptError (ExceedsSharedMem (I sz) (shared_max (opts k)))), k))"
    using sz by (auto simp add: smem_check_def smem_applies_def prog_simps sint_cond_def)
  have br: "opt_branch E ?opt ax (ArgInt n) k
      = (if ax < fr \<and> \<not> tc_local_axis k fr ax \<and> (device (opts k) = ''DSP'' \<or> n \<le> 16)
         then bind (shift_to E ax n False None) (\<lambda>_. upcast E) k
         else (Inl (KernelOptError (if \<not> ax < fr then UpcastIsForNonReduce
                 else if tc_local_axis k fr ax then UpcastTCLocals else UpcastTooMuch)), k))"
    using fr by (auto simp add: opt_branch_def int_amt_def opt_UPCAST_def prog_simps
        tc_local_axis_def global_dims_def split: option.splits)
  show ?thesis
    using fs len am sc br
    apply (simp add: apply_opt_def locals_check_def apply_opt_rest_def real_axis_def prog_simps
        upcast_valid_def)
    apply (auto simp add: prog_simps split: sum.splits prod.splits)
    done
qed

theorem upcast_validation_witness:
  "upcast_valid ex_elementwise 2 0 4 2 0
   \<and> apply_opt VE (Opt UPCAST (Some 0) (ArgInt 2)) True ex_elementwise
      = (Inr (), ex_elementwise\<lparr>sts := [[(I 2, 16), (I 8, 1), (I 2, 8)], [(I 2, 16), (I 8, 1), (I 2, 8)]],
                                 applied_opts := [Opt UPCAST (Some 0) (ArgInt 2)], upcasted := 1\<rparr>)
   \<and> \<not> upcast_valid ex_elementwise 2 1 8 32 0
   \<and> (\<exists>msg. apply_opt VE (Opt UPCAST (Some 1) (ArgInt 32)) True ex_elementwise
              = (Inl (KernelOptError msg), ex_elementwise))"
proof -
  have h: "full_shape VE ex_elementwise = Inr [I 4, I 8]" "first_reduce VE ex_elementwise = Inr 2"
    "py_index [I 4, I 8 :: sint] 0 = Inr (I 4)" "py_index [I 4, I 8 :: sint] 1 = Inr (I 8)"
    "reduceop ex_elementwise = None"
    by code_simp+
  have v: "upcast_valid ex_elementwise 2 0 4 2 0" "\<not> upcast_valid ex_elementwise 2 1 8 32 0"
    by code_simp+
  have e: "apply_opt VE (Opt UPCAST (Some 0) (ArgInt 2)) True ex_elementwise
      = (Inr (), ex_elementwise\<lparr>sts := [[(I 2, 16), (I 8, 1), (I 2, 8)], [(I 2, 16), (I 8, 1), (I 2, 8)]],
                                 applied_opts := [Opt UPCAST (Some 0) (ArgInt 2)], upcasted := 1\<rparr>)"
    by code_simp
  have "\<exists>msg. apply_opt VE (Opt UPCAST (Some 1) (ArgInt 32)) True ex_elementwise
              = (Inl (KernelOptError msg), ex_elementwise)"
    using upcast_validation [OF h(1,2,4), of 32 32 0 True] v(2) h(5) by simp
  with v e show ?thesis by simp
qed

subsection \<open>What an opt leaves of the tensor core and the recorded opts\<close>

lemma keepsD: "keeps R m \<Longrightarrow> m k = (r, k') \<Longrightarrow> R k k'"
  by (auto simp add: keeps_def)

lemma same_tc_refl [simp]: "same_tc k k" by (simp add: same_tc_def)

lemma same_tc_trans: "same_tc a b \<Longrightarrow> same_tc b c \<Longrightarrow> same_tc a c" by (simp add: same_tc_def)

lemma frame_return [frame]: "keeps same_tc (return x)"
  by (simp add: keeps_def prog_simps)

lemma frame_raise [frame]: "keeps same_tc (raise e)"
  by (simp add: keeps_def prog_simps)

lemma frame_reading [frame]: "keeps same_tc (reading g)"
  by (simp add: keeps_def prog_simps)

lemma frame_check [frame]: "keeps same_tc (check c m)"
  by (simp add: keeps_def prog_simps)

lemma frame_modify: "(\<And>k. same_tc k (u k)) \<Longrightarrow> keeps same_tc (modify u)"
  by (simp add: keeps_def prog_simps)

lemma frame_bind [frame]:
  assumes "keeps same_tc m" "\<And>x. keeps same_tc (g x)"
  shows "keeps same_tc (bind m g)"
proof -
  have "same_tc k k'" if "bind m g k = (r, k')" for k r k'
  proof (cases "m k")
    case (Pair r1 k1)
    with assms(1) have 1: "same_tc k k1" by (auto dest: keepsD)
    show ?thesis
    proof (cases r1)
      case (Inl e)
      with Pair that 1 show ?thesis by (simp add: prog_simps)
    next
      case (Inr x)
      with Pair that have "g x k1 = (r, k')" by (simp add: prog_simps)
      with assms(2) have "same_tc k1 k'" by (auto dest: keepsD)
      with 1 show ?thesis by (rule same_tc_trans)
    qed
  qed
  then show ?thesis by (auto simp add: keeps_def)
qed

lemma frame_if [frame]: "keeps R a \<Longrightarrow> keeps R b \<Longrightarrow> keeps R (if c then a else b)"
  by simp

lemma frame_option [frame]:
  "keeps R a \<Longrightarrow> (\<And>x. keeps R (b x)) \<Longrightarrow> keeps R (case v of None \<Rightarrow> a | Some x \<Rightarrow> b x)"
  by (cases v) simp_all

lemma frame_prod [frame]: "(\<And>a b. keeps R (f a b)) \<Longrightarrow> keeps R (case p of (a, b) \<Rightarrow> f a b)"
  by (cases p) simp

lemma frame_sint [frame]:
  "(\<And>n. keeps R (f n)) \<Longrightarrow> (\<And>u. keeps R (g u)) \<Longrightarrow> keeps R (case v of I n \<Rightarrow> f n | Sym u \<Rightarrow> g u)"
  by (cases v) simp_all

lemma frame_OptArg [frame]:
  "keeps R a \<Longrightarrow> (\<And>n. keeps R (f n)) \<Longrightarrow> (\<And>t. keeps R (g t)) \<Longrightarrow>
   keeps R (case v of ArgNone \<Rightarrow> a | ArgInt n \<Rightarrow> f n | ArgTuple t \<Rightarrow> g t)"
  by (cases v) simp_all

lemma frame_Let [frame]: "keeps R (f x) \<Longrightarrow> keeps R (Let x f)"
  by simp

lemma frame_for_each [frame]:
  "(\<And>x. keeps same_tc (body x)) \<Longrightarrow> keeps same_tc (for_each xs body)"
  by (induction xs) (auto intro: frame)

lemma frame_modify_sts [frame]: "keeps same_tc (modify (\<lambda>k. k\<lparr>sts := f k\<rparr>))"
  and frame_modify_upcasted [frame]: "keeps same_tc (modify (\<lambda>k. k\<lparr>upcasted := g k\<rparr>))"
  and frame_modify_local_dims [frame]: "keeps same_tc (modify (\<lambda>k. k\<lparr>local_dims := g k\<rparr>))"
  and frame_modify_gfr [frame]: "keeps same_tc (modify (\<lambda>k. k\<lparr>group_for_reduces := g k\<rparr>))"
  and frame_modify_dul [frame]: "keeps same_tc (modify (\<lambda>k. k\<lparr>dont_use_locals := b\<rparr>))"
  and frame_modify_tco [frame]: "keeps same_tc (modify (\<lambda>k. k\<lparr>tensor_core_opts := t\<rparr>))"
  by (rule frame_modify, simp add: same_tc_def)+

lemma frame_reshape_and_permute [frame]: "keeps same_tc (reshape_and_permute E f p)"
  unfolding reshape_and_permute_def by (intro frame)

lemma frame_upcast [frame]: "keeps same_tc (upcast E)"
  unfolding upcast_def by (intro frame)

lemma frame_shift_to [frame]: "keeps same_tc (shift_to E ax amt t ib)"
  unfolding shift_to_def by (intro frame)

lemma frame_simplify_ones [frame]: "keeps same_tc (simplify_ones E)"
  unfolding simplify_ones_def by (intro frame)

lemma frame_opt_LOCAL [frame]: "keeps same_tc (opt_LOCAL E ax amt)"
  unfolding opt_LOCAL_def by (intro frame)

lemma frame_opt_GROUP [frame]: "keeps same_tc (opt_GROUP E t ax amt)"
  unfolding opt_GROUP_def by (intro frame)

lemma frame_opt_UNROLL [frame]: "keeps same_tc (opt_UNROLL E ax amt)"
  unfolding opt_UNROLL_def by (intro frame)

lemma frame_opt_UPCAST [frame]: "keeps same_tc (opt_UPCAST E ax amt)"
  unfolding opt_UPCAST_def by (intro frame)

lemma frame_opt_NOLOCALS [frame]: "keeps same_tc opt_NOLOCALS"
  unfolding opt_NOLOCALS_def by (intro frame)

lemma frame_opt_SWAP [frame]: "keeps same_tc (opt_SWAP E ax amt)"
  unfolding opt_SWAP_def by (intro frame)

lemma frame_padto_loop [frame]: "keeps same_tc (padto_loop E ax amt ists padded)"
proof (induction ists arbitrary: padded)
  case Nil
  show ?case by (simp add: frame)
next
  case (Cons p rest)
  obtain i st where p: "p = (i, st)" by (cases p)
  show ?case unfolding p padto_loop.simps by (intro frame Cons.IH)
qed

lemma frame_opt_PADTO [frame]: "keeps same_tc (opt_PADTO E ax amt)"
  unfolding opt_PADTO_def by (intro frame)

lemma frame_int_amt [frame]: "keeps same_tc (int_amt a)"
  unfolding int_amt_def by (cases a) (simp_all add: frame)

lemma frame_opt_branch [frame]: "keeps same_tc (opt_branch E opt ax amt)"
  unfolding opt_branch_def by (cases "op opt") (simp_all, (intro frame)+)

lemma frame_opt_amount [frame]: "keeps same_tc (opt_amount E opt ax)"
  unfolding opt_amount_def by (intro frame)

lemma frame_smem_check [frame]: "keeps same_tc (smem_check E opt amt)"
  unfolding smem_check_def by (intro frame)

lemma frame_locals_check [frame]: "keeps same_tc (locals_check opt)"
  unfolding locals_check_def by (intro frame)

lemma frame_finish_opt [frame]: "keeps same_tc (finish_opt E opt False ax)"
  unfolding finish_opt_def by (simp, intro frame)

lemma frame_apply_opt_rest [frame]: "keeps same_tc (apply_opt_rest E opt False)"
  unfolding apply_opt_rest_def by (intro frame)

lemma frame_apply_opt_nontc [frame]: "keeps same_tc (apply_opt_nontc E opt False)"
  unfolding apply_opt_nontc_def by (intro frame)

lemma ensuresD: "ensures Q m \<Longrightarrow> m k = (r, k') \<Longrightarrow> Q k r k'"
  by (auto simp add: ensures_def)

lemma keeps_rec_finish: "keeps (rec_tc opt) (finish_opt E opt b ax)"
proof (cases b)
  case False
  then show ?thesis
    using frame_finish_opt [of E opt ax] by (auto simp add: keeps_def same_tc_def rec_tc_def)
next
  case True
  have "finish_opt E opt True ax k
        = finish_opt E opt False ax (k\<lparr>applied_opts := applied_opts k @ [opt]\<rparr>)" for k
    by (simp add: finish_opt_def prog_simps)
  with True show ?thesis
    using frame_finish_opt [of E opt ax]
    by (fastforce simp add: keeps_def same_tc_def rec_tc_def)
qed

lemma keeps_bind_rec:
  assumes "keeps same_tc m" "\<And>x. keeps (rec_tc opt) (g x)"
  shows "keeps (rec_tc opt) (bind m g)"
proof -
  have "rec_tc opt k k'" if "bind m g k = (r, k')" for k r k'
  proof (cases "m k")
    case (Pair r1 k1)
    with assms(1) have 1: "same_tc k k1" by (auto dest: keepsD)
    show ?thesis
    proof (cases r1)
      case (Inl e)
      with Pair that 1 show ?thesis by (simp add: prog_simps same_tc_def rec_tc_def)
    next
      case (Inr x)
      with Pair that have "g x k1 = (r, k')" by (simp add: prog_simps)
      with assms(2) have "rec_tc opt k1 k'" by (auto dest: keepsD)
      with 1 show ?thesis by (simp add: same_tc_def rec_tc_def)
    qed
  qed
  then show ?thesis by (auto simp add: keeps_def)
qed

lemma keeps_rec_rest: "keeps (rec_tc opt) (apply_opt_rest E opt b)"
  unfolding apply_opt_rest_def by (intro keeps_bind_rec frame keeps_rec_finish)

lemma frame_pad_loop [frame]: "keeps same_tc (pad_loop E ps ax)"
proof (induction ps arbitrary: ax)
  case Nil
  show ?case by (simp add: frame)
next
  case (Cons p ps)
  obtain a d where p: "p = (a, d)" by (cases p)
  have "same_tc k k'" if "pad_loop E ((a, d) # ps) ax k = (r, k')" for k r k'
  proof (cases "apply_opt_nontc E (Opt PADTO (Some a) (ArgInt d)) False k")
    case (Pair r1 k1)
    then have 1: "same_tc k k1" by (rule keepsD [OF frame_apply_opt_nontc])
    show ?thesis
    proof (cases r1)
      case (Inl e)
      with Pair that 1 show ?thesis by (cases e) auto
    next
      case (Inr x)
      with Pair that have "pad_loop E ps a k1 = (r, k')" by simp
      then have "same_tc k1 k'" by (rule keepsD [OF Cons.IH])
      with 1 show ?thesis by (rule same_tc_trans)
    qed
  qed
  then show ?case unfolding p by (auto simp add: keeps_def)
qed

lemma ensures_bind_tc:
  assumes "keeps same_tc m" "\<And>x. ensures tc_post (g x)"
  shows "ensures tc_post (bind m g)"
proof -
  have "tc_post k r k'" if "bind m g k = (r, k')" for k r k'
  proof (cases "m k")
    case (Pair r1 k1)
    with assms(1) have 1: "same_tc k k1" by (auto dest: keepsD)
    show ?thesis
    proof (cases r1)
      case (Inl e)
      with Pair that 1 show ?thesis by (auto simp add: prog_simps same_tc_def tc_post_def)
    next
      case (Inr x)
      with Pair that have "g x k1 = (r, k')" by (simp add: prog_simps)
      with assms(2) have "tc_post k1 r k'" by (auto dest: ensuresD)
      with 1 show ?thesis by (simp add: same_tc_def tc_post_def)
    qed
  qed
  then show ?thesis by (auto simp add: ensures_def)
qed

lemma ensures_if: "ensures Q a \<Longrightarrow> ensures Q b \<Longrightarrow> ensures Q (if c then a else b)"
  by simp

lemma ensures_option:
  "ensures Q a \<Longrightarrow> (\<And>x. ensures Q (b x)) \<Longrightarrow> ensures Q (case v of None \<Rightarrow> a | Some x \<Rightarrow> b x)"
  by (cases v) simp_all

lemma ensures_prod: "(\<And>a b. ensures Q (f a b)) \<Longrightarrow> ensures Q (case p of (a, b) \<Rightarrow> f a b)"
  by (cases p) simp

lemma ensures_return_False: "ensures tc_post (return False)"
  by (simp add: ensures_def tc_post_def prog_simps)

lemma ensures_set_tc:
  "ensures tc_post (bind (modify (\<lambda>k. k\<lparr>tensor_core := Some tc, use_tensor_cores := u\<rparr>)) (\<lambda>_. return True))"
  by (simp add: ensures_def tc_post_def prog_simps)

lemma tc_loop_post: "ensures tc_post (tc_loop E u l tcs ax)"
proof (induction tcs arbitrary: ax)
  case Nil
  show ?case by (simp add: ensures_return_False)
next
  case (Cons tc tcs)
  show ?case
    unfolding tc_loop.simps
    by (intro ensures_bind_tc ensures_if ensures_option ensures_prod ensures_set_tc Cons.IH frame)
qed

lemma apply_tc_opt_post: "ensures tc_post (apply_tc_opt E u ax sel l)"
  unfolding apply_tc_opt_def
  by (intro ensures_bind_tc ensures_if ensures_return_False tc_loop_post frame)

lemma opt_TC_not_first:
  "applied_opts k \<noteq> [] \<Longrightarrow> opt_TC E opt k = (Inl (KernelOptError TCMustBeFirst), k)"
  by (simp add: opt_TC_def prog_simps)

lemma opt_TC_post:
  assumes "opt_TC E opt k = (r, k')"
  shows "if r = Inr () then applied_opts k = [] \<and> applied_opts k' = [opt] \<and> tensor_core k' \<noteq> None
         else applied_opts k' = applied_opts k \<and> tensor_core k' = tensor_core k"
  using assms
  by (auto simp add: opt_TC_def prog_simps tc_post_def
      split: if_splits option.splits OptArg.splits list.splits sum.splits prod.splits
      dest!: ensuresD [OF apply_tc_opt_post])

lemma apply_opt_other_tc:
  assumes "op opt \<noteq> TC" "apply_opt E opt b k = (r, k')"
  shows "rec_tc opt k k'"
proof -
  have "keeps (rec_tc opt) (apply_opt E opt b)"
    using assms(1) unfolding apply_opt_def
    by (simp, intro keeps_bind_rec frame keeps_rec_rest)
  from this assms(2) show ?thesis by (rule keepsD)
qed

lemma apply_opt_TC_post:
  assumes "op opt = TC" "apply_opt E opt b k = (r, k')"
  shows "if r = Inr () then applied_opts k = [] \<and> applied_opts k' = [opt] \<and> tensor_core k' \<noteq> None
         else applied_opts k' = applied_opts k \<and> tensor_core k' = tensor_core k"
proof -
  from assms have "opt_TC E opt k = (r, k')"
    by (auto simp add: apply_opt_def locals_check_def prog_simps split: if_splits)
  then show ?thesis by (rule opt_TC_post)
qed

lemma tc_first_step:
  assumes inv: "tensor_core k \<noteq> None \<longrightarrow> applied_opts k \<noteq> [] \<and> op (hd (applied_opts k)) = TC"
    and step: "apply_opt E opt b k = (r, k')"
  shows "tensor_core k' \<noteq> None \<longrightarrow> applied_opts k' \<noteq> [] \<and> op (hd (applied_opts k')) = TC"
proof (cases "op opt = TC")
  case True
  from apply_opt_TC_post [OF True step] inv True show ?thesis
    by (auto split: if_splits)
next
  case False
  from apply_opt_other_tc [OF False step] inv show ?thesis
    by (auto simp add: rec_tc_def)
qed

text \<open>
  Claim C4. From a kernel with no applied opt and no tensor core, in every state that
  calls of \<^verbatim>\<open>apply_opt\<close> lead to: if \<^verbatim>\<open>tensor_core\<close> is set, the first applied opt is a
  \<^verbatim>\<open>TC\<close> opt; a \<^verbatim>\<open>TC\<close> opt raises \<^verbatim>\<open>KernelOptError\<close> ("tensor core opts must be first")
  unless \<^verbatim>\<open>applied_opts\<close> is empty; and an opt of another kind leaves \<^verbatim>\<open>tensor_core\<close> as it
  was.
\<close>

theorem tensor_core_set_first:
  assumes "reachable E k0 k" and "applied_opts k0 = []" and "tensor_core k0 = None"
  shows "(tensor_core k \<noteq> None \<longrightarrow> applied_opts k \<noteq> [] \<and> op (hd (applied_opts k)) = TC)
    \<and> (applied_opts k \<noteq> [] \<longrightarrow>
         (\<forall>x a b. apply_opt E (Opt TC x a) b k = (Inl (KernelOptError TCMustBeFirst), k)))
    \<and> (\<forall>opt b r k'. op opt \<noteq> TC \<longrightarrow> apply_opt E opt b k = (r, k') \<longrightarrow> tensor_core k' = tensor_core k)"
proof -
  from assms have "tensor_core k \<noteq> None \<longrightarrow> applied_opts k \<noteq> [] \<and> op (hd (applied_opts k)) = TC"
  proof (induction rule: reachable.induct)
    case start
    then show ?case by simp
  next
    case (call k opt append_opt r k')
    then show ?case using tc_first_step by blast
  qed
  moreover have "applied_opts k \<noteq> [] \<longrightarrow>
         (\<forall>x a b. apply_opt E (Opt TC x a) b k = (Inl (KernelOptError TCMustBeFirst), k))"
    by (simp add: apply_opt_def locals_check_def prog_simps opt_TC_not_first)
  moreover have "\<forall>opt b r k'. op opt \<noteq> TC \<longrightarrow> apply_opt E opt b k = (r, k') \<longrightarrow> tensor_core k' = tensor_core k"
    by (auto simp add: rec_tc_def dest: apply_opt_other_tc)
  ultimately show ?thesis by blast
qed
theorem tensor_core_set_first_witness:
  "apply_opt VE (Opt TC (Some 0) (ArgTuple [0, 0])) True (ex_matmul 4 4 8 [2, 2, 2])
     = (Inr (), ex_matmul_tc)
   \<and> reachable VE (ex_matmul 4 4 8 [2, 2, 2]) ex_matmul_tc
   \<and> tensor_core ex_matmul_tc \<noteq> None
   \<and> op (hd (applied_opts ex_matmul_tc)) = TC
   \<and> apply_opt VE (Opt TC (Some 0) (ArgTuple [0, 0])) True ex_matmul_tc
     = (Inl (KernelOptError TCMustBeFirst), ex_matmul_tc)"
proof -
  have e: "apply_opt VE (Opt TC (Some 0) (ArgTuple [0, 0])) True (ex_matmul 4 4 8 [2, 2, 2])
     = (Inr (), ex_matmul_tc)"
    by code_simp
  have r: "reachable VE (ex_matmul 4 4 8 [2, 2, 2]) ex_matmul_tc"
    by (rule reachable.call [OF reachable.start e])
  have i: "applied_opts (ex_matmul 4 4 8 [2, 2, 2]) = []" "tensor_core (ex_matmul 4 4 8 [2, 2, 2]) = None"
    by code_simp+
  have s: "tensor_core ex_matmul_tc \<noteq> None" "applied_opts ex_matmul_tc \<noteq> []"
    by code_simp+
  from tensor_core_set_first [OF r i] s e r show ?thesis by simp
qed

subsection \<open>A failed opt that changes the state\<close>

text \<open>
  Claim C1 does not hold of the code. A \<^verbatim>\<open>TC\<close> opt on the (4, 3) by (3, 5) product, with
  padding allowed, stores tensor-core options and pads the N axis with a first \<^verbatim>\<open>PADTO\<close>;
  the second \<^verbatim>\<open>PADTO\<close> fails, no other tensor core is left to try, and \<^verbatim>\<open>apply_opt\<close> raises
  \<^verbatim>\<open>KernelOptError\<close> ("no tensor core available") from a state that is not the one it
  started from. The loop of \<^verbatim>\<open>PADTO\<close> itself checks each tracker after it has padded the
  ones before: on two trackers of sizes 6 and 2, padding to 8 pads the first and raises on
  the second.
\<close>

theorem failed_opt_changes_state:
  "apply_opt VE (Opt TC (Some 0) (ArgTuple [0, 2])) True (ex_matmul 4 5 3 [4, 2, 16])
     = (Inl (KernelOptError NoTensorCore), ex_matmul_failed)
   \<and> ex_matmul_failed \<noteq> ex_matmul 4 5 3 [4, 2, 16]
   \<and> apply_opt VE (Opt PADTO (Some 0) (ArgInt 8)) True ex_uneven
     = (Inl (KernelOptError PadQuadruple), ex_uneven\<lparr>sts := [[(I 8, 1)], [(I 2, 1)]]\<rparr>)
   \<and> ex_uneven\<lparr>sts := [[(I 8, 1)], [(I 2, 1)]]\<rparr> \<noteq> ex_uneven"
  by code_simp

subsection \<open>Removing axes of size one\<close>

lemma index_True_total: "True \<in> set bs \<Longrightarrow> \<exists>i. index_True bs = Inr i"
  by (induction bs) auto

lemma py_index_nat: "py_index xs (int i) = (if i < length xs then Inr (xs ! i) else Inl IndexError)"
  by (simp add: py_index_def py_pos_def)

lemma bindE_Inr_iff: "bindE m f = Inr y \<longleftrightarrow> (\<exists>x. m = Inr x \<and> f x = Inr y)"
  by (cases m) simp_all


lemma drop_ones_Cons:
  "drop_ones bs (int i) (x # xs) = Inr r \<longleftrightarrow>
     i < length bs \<and> (\<exists>r'. drop_ones bs (int i + 1) xs = Inr r' \<and> r = (if bs ! i then r' else x # r'))"
  by (simp only: drop_ones.simps py_index_nat bindE_Inr_iff) auto


lemma drop_ones_Inr:
  "drop_ones bs (int i) xs = Inr r \<Longrightarrow>
     length xs \<le> length bs - i \<and> r = map snd (filter (\<lambda>p. \<not> fst p) (zip (drop i bs) xs))"
proof (induction xs arbitrary: i r)
  case Nil
  then show ?case by simp
next
  case (Cons x xs)
  have s: "int (Suc i) = int i + 1" by simp
  from Cons.prems obtain r' where i: "i < length bs"
    and r': "drop_ones bs (int i + 1) xs = Inr r'"
    and r: "r = (if bs ! i then r' else x # r')"
    unfolding drop_ones_Cons by blast
  from Cons.IH [of "Suc i" r', unfolded s, OF r'] have l: "length xs \<le> length bs - Suc i"
    and e: "r' = map snd (filter (\<lambda>p. \<not> fst p) (zip (drop (Suc i) bs) xs))" by blast+
  from i have d: "drop i bs = bs ! i # drop (Suc i) bs"
    by (simp add: Cons_nth_drop_Suc)
  from i l have "length (x # xs) \<le> length bs - i" by simp
  moreover from r e d have "r = map snd (filter (\<lambda>p. \<not> fst p) (zip (drop i bs) (x # xs)))"
    by simp
  ultimately show ?case by blast
qed


lemma drop_ones_none:
  "\<forall>b \<in> set bs. \<not> b \<Longrightarrow> i + length xs \<le> length bs \<Longrightarrow> drop_ones bs (int i) xs = Inr xs"
proof (induction xs arbitrary: i)
  case Nil
  then show ?case by simp
next
  case (Cons x xs)
  have s: "int (Suc i) = int i + 1" by simp
  from Cons.prems(2) have i: "i < length bs" and l: "Suc i + length xs \<le> length bs"
    by simp_all
  from i Cons.prems(1) have b: "\<not> bs ! i"
    using nth_mem by blast
  have "drop_ones bs (int (Suc i)) xs = Inr xs"
    using Cons.prems(1) l by (rule Cons.IH)
  then have "drop_ones bs (int i + 1) xs = Inr xs"
    by (simp only: s)
  with i b have "i < length bs \<and> (\<exists>r'. drop_ones bs (int i + 1) xs = Inr r' \<and>
      x # xs = (if bs ! i then r' else x # r'))"
    by simp
  then show ?case by (simp only: drop_ones_Cons)
qed

lemma mapE_Cons_Inr:
  "mapE f (x # xs) = Inr ys \<longleftrightarrow> (\<exists>y ys'. f x = Inr y \<and> mapE f xs = Inr ys' \<and> ys = y # ys')"
  by (simp only: mapE.simps bindE_Inr_iff) auto

lemma mapE_Inr:
  "mapE f xs = Inr ys \<Longrightarrow> length ys = length xs \<and> (\<forall>i < length xs. f (xs ! i) = Inr (ys ! i))"
proof (induction xs arbitrary: ys)
  case Nil
  then show ?case by simp
next
  case (Cons x xs)
  from Cons.prems obtain y ys' where y: "f x = Inr y" and m: "mapE f xs = Inr ys'" and e: "ys = y # ys'"
    unfolding mapE_Cons_Inr by blast
  from Cons.IH [OF m] have l: "length ys' = length xs"
    and n: "\<forall>i < length xs. f (xs ! i) = Inr (ys' ! i)" by blast+
  have "f ((x # xs) ! i) = Inr (ys ! i)" if "i < length (x # xs)" for i
    using that y n e by (cases i) simp_all
  with l e show ?case by simp
qed

lemma mapE_id: "\<forall>x \<in> set xs. f x = Inr x \<Longrightarrow> mapE f xs = Inr xs"
  by (induction xs) simp_all

lemma kept_length:
  assumes "length xs \<le> length bs"
  shows "length (filter (\<lambda>p. \<not> fst p) (zip bs xs)) \<le> length (filter (\<lambda>b. \<not> b) bs)"
proof -
  have "length (filter (\<lambda>p. \<not> fst p) (zip bs xs))
        = length (filter (\<lambda>b. \<not> b) (map fst (zip bs xs)))"
    by (simp add: filter_map comp_def)
  also from assms have "map fst (zip bs xs) = take (length xs) bs"
    by (simp add: map_fst_zip_take)
  also have "length (filter (\<lambda>b. \<not> b) (take (length xs) bs)) \<le> length (filter (\<lambda>b. \<not> b) bs)"
  proof -
    have "filter (\<lambda>b. \<not> b) bs
          = filter (\<lambda>b. \<not> b) (take (length xs) bs) @ filter (\<lambda>b. \<not> b) (drop (length xs) bs)"
      by (metis append_take_drop_id filter_append)
    then show ?thesis by simp
  qed
  finally show ?thesis .
qed

lemma kept_all:
  "length xs = length bs \<Longrightarrow>
   length (filter (\<lambda>p. \<not> fst p) (zip bs xs)) = length (filter (\<lambda>b. \<not> b) bs)"
proof -
  assume a: "length xs = length bs"
  have "length (filter (\<lambda>p. \<not> fst p) (zip bs xs))
        = length (filter (\<lambda>b. \<not> b) (map fst (zip bs xs)))"
    by (simp add: filter_map comp_def)
  also from a have "map fst (zip bs xs) = bs" by simp
  finally show ?thesis .
qed

lemma kept_no_ones:
  "I 1 \<notin> set (map snd (filter (\<lambda>p. \<not> fst p) (zip (map (\<lambda>s. s = I 1) fs) fs)))"
  by (induction fs) auto

lemma bindE_Inr_right [simp]: "bindE m Inr = m"
  by (cases m) simp_all

lemma readers_local_dims [simp]:
  "output_shape E (k\<lparr>local_dims := x\<rparr>) = output_shape E k"
  "full_shape E (k\<lparr>local_dims := x\<rparr>) = full_shape E k"
  "shape_len E (k\<lparr>local_dims := x\<rparr>) = shape_len E k"
  "first_upcast E (k\<lparr>local_dims := x\<rparr>) = first_upcast E k"
  "first_reduce E (k\<lparr>local_dims := x\<rparr>) = first_reduce E k"
  by (simp_all add: output_shape_def full_shape_def shape_len_def first_upcast_def first_reduce_def)

lemma simplify_ones_unfold:
  assumes n: "shape_len E k = Inr n" "n \<noteq> 0" and fs: "full_shape E k = Inr fs"
    and fr: "first_reduce E k = Inr fr"
  shows "simplify_ones E k =
    (let k2 = k\<lparr>local_dims := local_dims k - count_True (py_slice (map (\<lambda>s. s = I 1) fs) (fr - local_dims k) fr),
                upcasted := upcasted k - count_True (py_slice_from (map (\<lambda>s. s = I 1) fs) (n - upcasted k))\<rparr>
     in case ones_dropped E fs (sts k) of
          Inl e \<Rightarrow> (Inl e, k2)
        | Inr new_sts \<Rightarrow> (Inr (I 1 \<in> set fs), k2\<lparr>sts := new_sts\<rparr>))"
proof -
  have fu: "first_upcast E k = Inr (n - upcasted k)"
    using n(1) by (simp add: first_upcast_def)
  have e: "(\<exists>b \<in> set (map (\<lambda>s. s = I 1) fs). b) = (I 1 \<in> set fs)"
    by auto
  show ?thesis
    unfolding simplify_ones_def
    by (simp add: n fs fr fu Let_def reshape_and_permute_def prog_simps ones_dropped_def e
        del: set_map split: sum.splits)
qed

lemma simplify_ones_empty:
  "shape_len E k = Inr 0 \<Longrightarrow> simplify_ones E k = (Inr False, k)"
  by (simp add: simplify_ones_def prog_simps)


lemma simplify_ones_fails:
  assumes "shape_len E k = Inr n" "n \<noteq> 0"
  shows "full_shape E k = Inl e \<Longrightarrow> simplify_ones E k = (Inl e, k)"
    and "full_shape E k = Inr fs \<Longrightarrow> first_reduce E k = Inl e \<Longrightarrow> simplify_ones E k = (Inl e, k)"
  using assms unfolding simplify_ones_def by (simp_all add: prog_simps Let_def)

lemma simplify_ones_shape_len_fails:
  "shape_len E k = Inl e \<Longrightarrow> simplify_ones E k = (Inl e, k)"
  unfolding simplify_ones_def by (simp add: prog_simps)

lemma simplify_ones_Inr:
  assumes "simplify_ones E k = (Inr b, k')"
  obtains (empty) "shape_len E k = Inr 0" "k' = k" "\<not> b"
  | (dropped) n fs fr new_sts where "shape_len E k = Inr n" "n \<noteq> 0" "full_shape E k = Inr fs"
      "first_reduce E k = Inr fr" "ones_dropped E fs (sts k) = Inr new_sts"
      "k' = k\<lparr>local_dims := local_dims k - count_True (py_slice (map (\<lambda>s. s = I 1) fs) (fr - local_dims k) fr),
              upcasted := upcasted k - count_True (py_slice_from (map (\<lambda>s. s = I 1) fs) (n - upcasted k)),
              sts := new_sts\<rparr>"
      "b = (I 1 \<in> set fs)"
proof (cases "shape_len E k")
  case (Inl e)
  from simplify_ones_shape_len_fails [OF Inl] assms show ?thesis by simp
next
  case (Inr n)
  show ?thesis
  proof (cases "n = 0")
    case True
    with Inr have "simplify_ones E k = (Inr False, k)" by (simp add: simplify_ones_empty)
    with assms have "k' = k" "\<not> b" by simp_all
    with Inr True empty show ?thesis by simp
  next
    case False
    obtain fs where fs: "full_shape E k = Inr fs"
      using simplify_ones_fails(1) [OF Inr False] assms by (cases "full_shape E k") auto
    obtain fr where fr: "first_reduce E k = Inr fr"
      using simplify_ones_fails(2) [OF Inr False fs] assms by (cases "first_reduce E k") auto
    note u = simplify_ones_unfold [OF Inr False fs fr]
    obtain new_sts where d: "ones_dropped E fs (sts k) = Inr new_sts"
      using assms unfolding u by (cases "ones_dropped E fs (sts k)") (simp_all add: Let_def)
    from assms have "k' = k\<lparr>local_dims := local_dims k - count_True (py_slice (map (\<lambda>s. s = I 1) fs) (fr - local_dims k) fr),
              upcasted := upcasted k - count_True (py_slice_from (map (\<lambda>s. s = I 1) fs) (n - upcasted k)),
              sts := new_sts\<rparr>" "b = (I 1 \<in> set fs)"
      unfolding u by (simp_all add: Let_def d)
    with Inr False fs fr d dropped show ?thesis by blast
  qed
qed

lemma ones_dropped_elem:
  assumes c: "reshape_contract E" and d: "ones_dropped E fs ss = Inr ns"
  shows "length ns = length ss"
    and "i < length ss \<Longrightarrow> length (st_shape E (ss ! i)) \<le> length fs"
    and "i < length ss \<Longrightarrow> st_shape E (ns ! i) = kept fs (st_shape E (ss ! i))"
proof -
  let ?bs = "map (\<lambda>s. s = I 1) fs"
  from mapE_Inr [OF d [unfolded ones_dropped_def]]
  have l: "length ns = length ss"
    and e: "\<forall>i < length ss. bindE (drop_ones ?bs 0 (st_shape E (ss ! i))) (st_reshape E (ss ! i)) = Inr (ns ! i)"
    by blast+
  show "length ns = length ss" by (rule l)
  {
    assume i: "i < length ss"
    with e obtain r where r: "drop_ones ?bs 0 (st_shape E (ss ! i)) = Inr r"
      and s: "st_reshape E (ss ! i) r = Inr (ns ! i)"
      by (auto simp add: bindE_Inr_iff)
    from drop_ones_Inr [of ?bs 0 "st_shape E (ss ! i)" r] r
    have 1: "length (st_shape E (ss ! i)) \<le> length fs" and 2: "r = kept fs (st_shape E (ss ! i))"
      by simp_all
    from c s have "st_shape E (ns ! i) = r" by (auto simp add: reshape_contract_def)
    with 1 2 have "length (st_shape E (ss ! i)) \<le> length fs \<and> st_shape E (ns ! i) = kept fs (st_shape E (ss ! i))"
      by simp
  }
  then show "i < length ss \<Longrightarrow> length (st_shape E (ss ! i)) \<le> length fs"
    and "i < length ss \<Longrightarrow> st_shape E (ns ! i) = kept fs (st_shape E (ss ! i))" by blast+
qed

lemma count_True_none: "\<forall>b \<in> set bs. \<not> b \<Longrightarrow> count_True bs = 0"
  by (simp add: count_True_def filter_empty_conv)

lemma count_True_slices:
  assumes "\<forall>b \<in> set bs. \<not> b"
  shows "count_True (py_slice bs lo hi) = 0" and "count_True (py_slice_from bs lo) = 0"
proof -
  have "set (py_slice bs lo hi) \<subseteq> set bs"
    unfolding py_slice_def Let_def by (meson order_trans set_drop_subset set_take_subset)
  with assms show "count_True (py_slice bs lo hi) = 0" by (intro count_True_none) blast
  have "set (py_slice_from bs lo) \<subseteq> set bs"
    unfolding py_slice_from_def by (rule set_drop_subset)
  with assms show "count_True (py_slice_from bs lo) = 0" by (intro count_True_none) blast
qed

lemma first_reduce_defined:
  assumes "output_shape E k = Inr os" "full_shape E k = Inr fs" "length os = length fs"
  shows "\<exists>fr. first_reduce E k = Inr fr"
proof -
  from assms(1) have n: "shape_len E k = Inr (int (length os))" by (simp add: shape_len_def)
  let ?fu = "int (length os) - upcasted k"
  have l: "length (py_slice_to os ?fu) = length (py_slice_to fs ?fu)"
    using assms(3) by (simp add: py_slice_to_def)
  have "True \<in> set (map (\<lambda>(x, y). resolve_neq E x y)
      (zip (py_slice_to os ?fu @ [I 0]) (py_slice_to fs ?fu @ [I 1])))"
    using l by (simp add: zip_append resolve_neq_def)
  from index_True_total [OF this] assms(1,2) n show ?thesis
    by (simp add: first_reduce_def first_upcast_def)
qed

lemma new_strides_length: "new_strides old ms = Some ts \<Longrightarrow> length ts = length ms"
proof (induction old ms arbitrary: ts rule: new_strides.induct)
  case (1 old)
  then show ?case by (simp split: if_splits)
next
  case (2 old m ms)
  show ?case
  proof (cases "m = 1")
    case True
    with 2(1) [OF True] "2.prems" show ?thesis by auto
  next
    case m: False
    show ?thesis
    proof (cases old)
      case Nil
      with m "2.prems" show ?thesis by simp
    next
      case (Cons p rest)
      obtain n t where p: "p = (n, t)" by (cases p)
      note old = Cons [unfolded p]
      show ?thesis
      proof (cases "n = m")
        case True
        with 2(2) [OF m old refl True] "2.prems" m old show ?thesis by auto
      next
        case nm: False
        show ?thesis
        proof (cases "0 < m \<and> m < n \<and> n mod m = 0")
          case True
          with 2(3) [OF m old refl nm True] "2.prems" m old nm show ?thesis by auto
        next
          case d: False
          show ?thesis
          proof (cases rest)
            case Nil
            with "2.prems" m old nm d show ?thesis by simp
          next
            case r: (Cons q rest')
            obtain n2 t2 where q: "q = (n2, t2)" by (cases q)
            note rest = r [unfolded q]
            show ?thesis
            proof (cases "t = n2 * t2")
              case True
              from "2.prems" m old nm d rest True
              have "new_strides ((n * n2, t2) # rest') (m # ms) = Some ts" by simp
              from 2(4) [OF m old refl nm d rest refl True this] show ?thesis .
            next
              case False
              with "2.prems" m old nm d rest show ?thesis by simp
            qed
          qed
        qed
      qed
    qed
  qed
qed

lemma the_ints_length: "the_ints xs = Some b \<Longrightarrow> length b = length xs"
  by (auto simp add: the_ints_def split: if_splits)

lemma view_reshape_shape:
  assumes "view_reshape v s = Inr v'"
  shows "map fst v' = s"
proof (cases "s = map fst v")
  case True
  with assms show ?thesis by (simp add: view_reshape_def)
next
  case False
  show ?thesis
  proof (cases "the_ints (map fst v)")
    case None
    with assms False show ?thesis by (simp add: view_reshape_def)
  next
    case a: (Some a)
    show ?thesis
    proof (cases "the_ints s")
      case None
      with assms False a show ?thesis by (simp add: view_reshape_def)
    next
      case b: (Some b)
      show ?thesis
      proof (cases "new_strides (filter (\<lambda>(n, t). n \<noteq> 1) (zip a (map snd v))) b")
        case None
        with assms False a b show ?thesis by (simp add: view_reshape_def)
      next
        case (Some ts)
        with assms False a b have "v' = zip s ts" by (simp add: view_reshape_def)
        with new_strides_length [OF Some] the_ints_length [OF b] show ?thesis by simp
      qed
    qed
  qed
qed

lemma view_reshape_contract: "reshape_contract VE"
proof -
  have "view_reshape v (map fst v) = Inr v" for v by (simp add: view_reshape_def)
  with view_reshape_shape show ?thesis
    unfolding reshape_contract_def VE_def by simp
qed

text \<open>
  Claim C7. \<^verbatim>\<open>simplify_ones\<close> is idempotent: on a kernel whose output and full shapes have
  the same number of axes, after a call that returned, a second call returns \<open>False\<close> and
  leaves the state as the first call left it, for every shape-tracker that meets the reshape
  contract.
\<close>

theorem simplify_ones_idempotent:
  assumes c: "reshape_contract E"
    and os: "output_shape E k = Inr os" and fs: "full_shape E k = Inr fs"
    and len: "length os = length fs"
    and once: "simplify_ones E k = (Inr b, k')"
  shows "simplify_ones E k' = (Inr False, k')"
  using once
proof (cases rule: simplify_ones_Inr)
  case empty
  then show ?thesis by (simp add: simplify_ones_empty)
next
  case (dropped n fs0 fr new_sts)
  from dropped(3) fs have fs0: "fs0 = fs" by simp
  note d = dropped(5) [unfolded fs0]
  note el = ones_dropped_elem [OF c d]
  let ?bs = "map (\<lambda>s. s = I 1) fs"
  have sts': "sts k' = new_sts" and fbi: "full_buf_index k' = full_buf_index k"
    using dropped(6) by simp_all
  from os obtain st0 rest where k0: "sts k = st0 # rest" and os0: "os = st_shape E st0"
    by (auto simp add: output_shape_def split: list.splits)
  from fs have f: "full_buf_index k < length (sts k)" and fsf: "fs = st_shape E (sts k ! full_buf_index k)"
    by (auto simp add: full_shape_def split: if_splits)
  have ne: "0 < length (sts k)" using k0 by simp
  define fs' where "fs' = kept fs fs"
  define os' where "os' = kept fs os"
  have fs': "full_shape E k' = Inr fs'"
    using f el(1) el(3) [OF f] by (simp add: full_shape_def sts' fbi fs'_def fsf)
  have "st_shape E (new_sts ! 0) = os'"
    using el(3) [OF ne] k0 by (simp add: os'_def os0)
  moreover have "new_sts \<noteq> []" using el(1) k0 by auto
  ultimately have os': "output_shape E k' = Inr os'"
    by (cases new_sts) (simp_all add: output_shape_def sts')
  have lfs': "length fs' = length (filter (\<lambda>b. \<not> b) ?bs)"
    unfolding fs'_def using kept_all [of fs ?bs] by simp
  have "length os' = length (filter (\<lambda>b. \<not> b) ?bs)"
    unfolding os'_def using kept_all [of os ?bs] len by simp
  with lfs' have len': "length os' = length fs'" by simp
  have no1: "I 1 \<notin> set fs'" using kept_no_ones [of fs] by (simp add: fs'_def)
  then have none: "\<forall>b \<in> set (map (\<lambda>s. s = I 1) fs'). \<not> b" by auto
  have n': "shape_len E k' = Inr (int (length os'))"
    using os' by (simp add: shape_len_def)
  show ?thesis
  proof (cases "length os' = 0")
    case True
    with n' show ?thesis by (simp add: simplify_ones_empty)
  next
    case False
    from first_reduce_defined [OF os' fs' len'] obtain fr' where fr': "first_reduce E k' = Inr fr'" ..
    have same: "ones_dropped E fs' (sts k') = Inr (sts k')"
      unfolding ones_dropped_def
    proof (rule mapE_id, rule ballI)
      fix st assume "st \<in> set (sts k')"
      then obtain i where i: "i < length (sts k)" and st: "st = new_sts ! i"
        using el(1) by (auto simp add: sts' in_set_conv_nth)
      have "length (st_shape E st) \<le> length (filter (\<lambda>b. \<not> b) ?bs)"
        unfolding st el(3) [OF i] using kept_length [of "st_shape E (sts k ! i)" ?bs] el(2) [OF i]
        by simp
      then have "0 + length (st_shape E st) \<le> length (map (\<lambda>s. s = I 1) fs')"
        using lfs' by simp
      from drop_ones_none [OF none this]
      have "drop_ones (map (\<lambda>s. s = I 1) fs') 0 (st_shape E st) = Inr (st_shape E st)" by simp
      moreover from c have "st_reshape E st (st_shape E st) = Inr st"
        by (simp add: reshape_contract_def)
      ultimately show "bindE (drop_ones (map (\<lambda>s. s = I 1) fs') 0 (st_shape E st)) (st_reshape E st) = Inr st"
        by simp
    qed
    have z: "int (length os') \<noteq> 0" using False by simp
    show ?thesis
      unfolding simplify_ones_unfold [OF n' z fs' fr']
      by (simp add: Let_def same count_True_slices [OF none] no1)
  qed
qed

theorem simplify_ones_idempotent_witness:
  "reshape_contract VE \<and> output_shape VE ex_ones = Inr [I 4, I 1, I 1] \<and>
   full_shape VE ex_ones = Inr [I 4, I 1, I 8] \<and>
   simplify_ones VE ex_ones = (Inr True, ex_ones_dropped) \<and>
   simplify_ones VE ex_ones_dropped = (Inr False, ex_ones_dropped)"
proof -
  have 1: "simplify_ones VE ex_ones = (Inr True, ex_ones_dropped)" by code_simp
  have 2: "output_shape VE ex_ones = Inr [I 4, I 1, I 1]" by code_simp
  have 3: "full_shape VE ex_ones = Inr [I 4, I 1, I 8]" by code_simp
  from simplify_ones_idempotent [OF view_reshape_contract 2 3 _ 1] 1 2 3 view_reshape_contract
  show ?thesis by simp
qed

subsection \<open>Merging adjacent axes\<close>

lemma bindE_assoc: "bindE (bindE m f) g = bindE m (\<lambda>x. bindE (f x) g)"
  by (cases m) simp_all

lemma merge_loop_append:
  "merge_loop E fr rows (xs @ ys) rets = bindE (merge_loop E fr rows xs rets) (merge_loop E fr rows ys)"
proof (induction xs arbitrary: rets)
  case Nil
  then show ?case by simp
next
  case (Cons a xs)
  then show ?case by (cases "merge_step E fr rows a rets") simp_all
qed

lemma py_range_split:
  assumes "lo \<le> i" "i < hi"
  shows "py_range lo hi = py_range lo i @ i # py_range (i + 1) hi"
proof -
  have "[lo..hi - 1] = [lo..i - 1] @ [i..hi - 1]"
    using assms upto_split1 [of lo i "hi - 1"] by simp
  also have "[i..hi - 1] = i # [i + 1..hi - 1]"
    using assms by (simp add: upto_rec1)
  finally show ?thesis by (simp add: py_range_def)
qed

lemma py_pos_last: "0 < n \<Longrightarrow> py_pos n (- 1) = Some (n - 1)"
  by (auto simp add: py_pos_def nat_diff_distrib')

lemma py_index_last: "c \<noteq> [] \<Longrightarrow> py_index (p @ c) (- 1) = py_index c (- 1)"
proof -
  assume c: "c \<noteq> []"
  then have "length p + length c - 1 = length p + (length c - 1)" by (cases c) simp_all
  with c show ?thesis by (simp add: py_index_def py_pos_last nth_append)
qed

lemma py_update_last:
  "c \<noteq> [] \<Longrightarrow> py_update (p @ c) (- 1) v = bindE (py_update c (- 1) v) (\<lambda>c'. Inr (p @ c'))"
proof -
  assume c: "c \<noteq> []"
  then have "length p + length c - 1 = length p + (length c - 1)" by (cases c) simp_all
  with c show ?thesis by (simp add: py_update_def py_pos_last list_update_append)
qed

lemma can_merge_prefix: "c \<noteq> [] \<Longrightarrow> can_merge E i (r, p @ c) = can_merge E i (r, c)"
  by (cases r) (simp add: can_merge_def py_index_last)

lemma merge_row_prefix:
  "c \<noteq> [] \<Longrightarrow> merge_row E i m (r, p @ c) = bindE (merge_row E i m (r, c)) (\<lambda>c'. Inr (p @ c'))"
  by (cases r; cases "py_index c (- 1)")
    (auto simp add: merge_row_def py_index_last py_update_last bindE_assoc split: prod.splits)

lemma prefixed_simps [simp]:
  "prefixed pre (Inl e) = Inl e"
  "prefixed pre (Inr cur) = Inr (map2 (@) pre cur)"
  by (simp_all add: prefixed_def)

lemma can_merge_all_prefix:
  "length pre = length cur \<Longrightarrow> \<forall>c \<in> set cur. c \<noteq> [] \<Longrightarrow>
   mapE (can_merge E i) (zip rows (map2 (@) pre cur)) = mapE (can_merge E i) (zip rows cur)"
proof (induction pre cur arbitrary: rows rule: list_induct2)
  case Nil
  then show ?case by simp
next
  case (Cons p pre c cur)
  then show ?case by (cases rows) (simp_all add: can_merge_prefix)
qed

lemma merge_row_all_prefix:
  "length pre = length cur \<Longrightarrow> \<forall>c \<in> set cur. c \<noteq> [] \<Longrightarrow>
   mapE (merge_row E i m) (zip rows (map2 (@) pre cur))
     = prefixed pre (mapE (merge_row E i m) (zip rows cur))"
proof (induction pre cur arbitrary: rows rule: list_induct2)
  case Nil
  then show ?case by simp
next
  case (Cons p pre c cur)
  show ?case
  proof (cases rows)
    case Nil
    then show ?thesis by simp
  next
    case rows: (Cons r rs)
    from Cons.prems have c: "c \<noteq> []" and rest: "\<forall>c \<in> set cur. c \<noteq> []" by simp_all
    note IH = Cons.IH [OF rest, of rs]
    show ?thesis
      by (cases "merge_row E i m (r, c)"; cases "mapE (merge_row E i m) (zip rs cur)")
        (simp_all add: rows merge_row_prefix [OF c] IH)
  qed
qed

lemma merge_step_prefix:
  assumes "length pre = length cur" "\<forall>c \<in> set cur. c \<noteq> []"
  shows "merge_step E fr rows i (map2 (@) pre cur) = prefixed pre (merge_step E fr rows i cur)"
proof (cases "mapE (can_merge E i) (zip rows cur)")
  case (Inl e)
  then show ?thesis by (simp add: merge_step_def can_merge_all_prefix [OF assms])
next
  case (Inr cs)
  show ?thesis
  proof (cases "if list_all (\<lambda>c. c) cs then bindE fr (\<lambda>f. Inr (i \<noteq> f)) else Inr False")
    case (Inl e)
    with Inr show ?thesis by (simp add: merge_step_def can_merge_all_prefix [OF assms])
  next
    case m: (Inr m)
    with Inr show ?thesis
      by (simp add: merge_step_def can_merge_all_prefix [OF assms] merge_row_all_prefix [OF assms])
  qed
qed

lemma merge_row_nonempty:
  assumes "merge_row E i m (r, c) = Inr c'" "c \<noteq> []"
  shows "c' \<noteq> []"
proof (cases m)
  case True
  with assms(1) obtain v where "py_update c (- 1) v = Inr c'"
    by (cases r) (auto simp add: merge_row_def bindE_Inr_iff)
  with assms(2) show ?thesis by (auto simp add: py_update_def split: option.splits)
next
  case False
  with assms(1) show ?thesis by (cases r) (auto simp add: merge_row_def bindE_Inr_iff)
qed

lemma merge_step_shape:
  assumes "merge_step E fr rows i cur = Inr cur'" "length cur = length rows" "\<forall>c \<in> set cur. c \<noteq> []"
  shows "length cur' = length rows \<and> (\<forall>c \<in> set cur'. c \<noteq> [])"
proof -
  from assms(1) obtain m where "mapE (merge_row E i m) (zip rows cur) = Inr cur'"
    by (auto simp add: merge_step_def bindE_Inr_iff)
  from mapE_Inr [OF this] assms(2)
  have l: "length cur' = length rows"
    and e: "\<forall>j < length rows. merge_row E i m (zip rows cur ! j) = Inr (cur' ! j)" by simp_all
  have "cur' ! j \<noteq> []" if "j < length cur'" for j
  proof -
    from that l have j: "j < length rows" by simp
    with e assms(2) have "merge_row E i m (rows ! j, cur ! j) = Inr (cur' ! j)" by simp
    moreover from j assms(2,3) have "cur ! j \<noteq> []" by simp
    ultimately show ?thesis by (rule merge_row_nonempty)
  qed
  with l show ?thesis by (auto simp add: in_set_conv_nth)
qed

lemma merge_loop_shape:
  "merge_loop E fr rows js cur = Inr cur' \<Longrightarrow> length cur = length rows \<Longrightarrow>
   \<forall>c \<in> set cur. c \<noteq> [] \<Longrightarrow> length cur' = length rows \<and> (\<forall>c \<in> set cur'. c \<noteq> [])"
proof (induction js arbitrary: cur)
  case Nil
  then show ?case by simp
next
  case (Cons j js)
  from Cons.prems(1) obtain mid where s: "merge_step E fr rows j cur = Inr mid"
    and l: "merge_loop E fr rows js mid = Inr cur'"
    by (auto simp add: bindE_Inr_iff)
  from merge_step_shape [OF s Cons.prems(2,3)] Cons.IH [OF l] show ?case by blast
qed

lemma merge_loop_prefix:
  "length pre = length rows \<Longrightarrow> length cur = length rows \<Longrightarrow> \<forall>c \<in> set cur. c \<noteq> [] \<Longrightarrow>
   merge_loop E fr rows js (map2 (@) pre cur) = prefixed pre (merge_loop E fr rows js cur)"
proof (induction js arbitrary: cur)
  case Nil
  then show ?case by simp
next
  case (Cons j js)
  from Cons.prems have pc: "length pre = length cur" by simp
  note step = merge_step_prefix [OF pc Cons.prems(3), of E fr rows j]
  show ?case
  proof (cases "merge_step E fr rows j cur")
    case (Inl e)
    with step show ?thesis by simp
  next
    case (Inr mid)
    from merge_step_shape [OF Inr Cons.prems(2,3)] Cons.IH [OF Cons.prems(1), of mid]
    have "merge_loop E fr rows js (map2 (@) pre mid) = prefixed pre (merge_loop E fr rows js mid)"
      by blast
    with step Inr show ?thesis by simp
  qed
qed

lemma init_rets_shape:
  assumes "init_rets rows i = Inr c"
  shows "length c = length rows \<and> (\<forall>x \<in> set c. x \<noteq> [])"
proof -
  from mapE_Inr [OF assms [unfolded init_rets_def]]
  have l: "length c = length rows"
    and e: "\<forall>j < length rows. (case rows ! j of (s, st) \<Rightarrow>
              bindE (py_index s i) (\<lambda>si. bindE (py_index st i) (\<lambda>sti. Inr [(si, sti)]))) = Inr (c ! j)"
    by simp_all
  have "c ! j \<noteq> []" if "j < length c" for j
    using e that l by (cases "rows ! j") (auto simp add: bindE_Inr_iff)
  with l show ?thesis by (auto simp add: in_set_conv_nth)
qed

lemma new_groups:
  "length rows = length rets \<Longrightarrow> mapE (merge_row E i False) (zip rows rets) = Inr rets' \<Longrightarrow>
   \<exists>c. init_rets rows i = Inr c \<and> rets' = map2 (@) rets c"
proof (induction rows rets arbitrary: rets' rule: list_induct2)
  case Nil
  then show ?case by (simp add: init_rets_def)
next
  case (Cons r rows t rets)
  from Cons.prems have "mapE (merge_row E i False) ((r, t) # zip rows rets) = Inr rets'" by simp
  then obtain y ys where y: "merge_row E i False (r, t) = Inr y"
    and ys: "mapE (merge_row E i False) (zip rows rets) = Inr ys" and e: "rets' = y # ys"
    unfolding mapE_Cons_Inr by blast
  from Cons.IH [OF ys] obtain c where c: "init_rets rows i = Inr c" and m: "ys = map2 (@) rets c"
    by blast
  obtain s st where r: "r = (s, st)" by (cases r)
  from y obtain si sti where si: "py_index s i = Inr si" and sti: "py_index st i = Inr sti"
    and y': "y = t @ [(si, sti)]"
    by (auto simp add: r merge_row_def bindE_Inr_iff)
  from c si sti have "init_rets (r # rows) i = Inr ([(si, sti)] # c)"
    by (simp add: init_rets_def r)
  with e m y' show ?case by simp
qed

lemma merge_step_boundary:
  assumes "merge_step E (Inr fr) rows fr rets = Inr rets'" "length rets = length rows"
  shows "\<exists>c. init_rets rows fr = Inr c \<and> rets' = map2 (@) rets c"
proof -
  from assms(1) have "mapE (merge_row E fr False) (zip rows rets) = Inr rets'"
    by (auto simp add: merge_step_def bindE_Inr_iff split: if_splits)
  with assms(2) show ?thesis by (intro new_groups) simp_all
qed

text \<open>
  Claim C8. \<^verbatim>\<open>simplify_merge_adjacent\<close> never merges across the reduce boundary: when the
  merging loop returns for a first reduce axis \<open>fr\<close> inside the shape, the merged pairs of
  every row are those of the axes before \<open>fr\<close> followed by those of the axes from \<open>fr\<close> on,
  whatever the strides are.
\<close>

theorem reduce_boundary_kept:
  assumes run: "merge_dims E (Inr fr) rows = Inr rets"
    and row0: "py_index rows 0 = Inr (s0, st0)"
    and fr: "0 < fr" "fr < int (length s0)"
  shows "\<exists>pre suf. merge_range E (Inr fr) rows 0 fr = Inr pre
           \<and> merge_range E (Inr fr) rows fr (int (length s0)) = Inr suf
           \<and> rets = map2 (@) pre suf"
proof -
  let ?loop = "merge_loop E (Inr fr) rows"
  from run row0 obtain r0 where r0: "init_rets rows 0 = Inr r0"
    and all: "?loop (py_range 1 (int (length s0))) r0 = Inr rets"
    by (auto simp add: merge_dims_def bindE_Inr_iff)
  from fr have "py_range 1 (int (length s0)) = py_range 1 fr @ fr # py_range (fr + 1) (int (length s0))"
    by (intro py_range_split) simp_all
  with all obtain pre mid where pre: "?loop (py_range 1 fr) r0 = Inr pre"
    and mid: "merge_step E (Inr fr) rows fr pre = Inr mid"
    and rest: "?loop (py_range (fr + 1) (int (length s0))) mid = Inr rets"
    by (auto simp add: merge_loop_append bindE_Inr_iff)
  from init_rets_shape [OF r0] have "length r0 = length rows" "\<forall>c \<in> set r0. c \<noteq> []" by simp_all
  from merge_loop_shape [OF pre this] have lp: "length pre = length rows" by simp
  from merge_step_boundary [OF mid lp] obtain c where c: "init_rets rows fr = Inr c"
    and m: "mid = map2 (@) pre c" by blast
  from init_rets_shape [OF c] have lc: "length c = length rows" and nc: "\<forall>x \<in> set c. x \<noteq> []"
    by simp_all
  from rest [unfolded m merge_loop_prefix [OF lp lc nc]]
  obtain suf where suf: "?loop (py_range (fr + 1) (int (length s0))) c = Inr suf"
    and r: "rets = map2 (@) pre suf"
    by (cases "?loop (py_range (fr + 1) (int (length s0))) c") auto
  from r0 pre have "merge_range E (Inr fr) rows 0 fr = Inr pre" by (simp add: merge_range_def)
  moreover from c suf have "merge_range E (Inr fr) rows fr (int (length s0)) = Inr suf"
    by (simp add: merge_range_def)
  ultimately show ?thesis using r by blast
qed

theorem reduce_boundary_kept_witness:
  "merge_dims VE (Inr 2) ex_rows
     = Inr [[(I 6, Some (I 4)), (I 4, Some (I 1))], [(I 6, Some (I 4)), (I 4, Some (I 1))]]
   \<and> merge_dims VE (Inr 3) ex_rows = Inr [[(I 24, Some (I 1))], [(I 24, Some (I 1))]]
   \<and> (\<exists>pre suf. merge_range VE (Inr 2) ex_rows 0 2 = Inr pre
         \<and> merge_range VE (Inr 2) ex_rows 2 3 = Inr suf
         \<and> [[(I 6, Some (I 4)), (I 4, Some (I 1))], [(I 6, Some (I 4)), (I 4, Some (I 1))]]
             = map2 (@) pre suf)"
proof -
  have 1: "merge_dims VE (Inr 2) ex_rows
     = Inr [[(I 6, Some (I 4)), (I 4, Some (I 1))], [(I 6, Some (I 4)), (I 4, Some (I 1))]]"
    by code_simp
  have 2: "merge_dims VE (Inr 3) ex_rows = Inr [[(I 24, Some (I 1))], [(I 24, Some (I 1))]]"
    by code_simp
  have 3: "py_index ex_rows 0 = Inr ([I 2, I 3, I 4], [Some (I 12), Some (I 4), Some (I 1)])"
    by code_simp
  from reduce_boundary_kept [OF 1 3] 1 2 show ?thesis by simp
qed

end
